theory Spec2Isabelle
  imports Main "HOL-Library.Word"
begin

section \<open>Index definitions (secondary/common)\<close>

text \<open>
  The Go struct \<^verbatim>\<open>IndexDefn\<close> of package \<^verbatim>\<open>common\<close>. \<^verbatim>\<open>IndexDefnId\<close> is a
  \<^verbatim>\<open>uint64\<close>; \<^verbatim>\<open>IndexType\<close>, \<^verbatim>\<open>ExprType\<close> and \<^verbatim>\<open>PartitionScheme\<close> are Go
  strings.
\<close>

record IndexDefn =
  DefnId :: "64 word"
  Name :: string
  Using :: string
  Bucket :: string
  BucketUUID :: string
  IsPrimary :: bool
  SecExprs :: "string list"
  ExprType :: string
  PartitionScheme :: string
  PartitionKey :: string
  WhereExpr :: string
  Deferred :: bool
  Immutable :: bool
  Nodes :: "string list"
  IsArrayIndex :: bool

text \<open>
  The two nested \<^verbatim>\<open>range\<close> loops at the end of \<^verbatim>\<open>IsEquivalentIndex\<close>: the inner
  one compares one expression \<open>s1\<close> of \<open>d1\<close> with every expression of \<open>d2\<close>, and
  the first difference returns false.
\<close>

fun secExprs_inner :: "string \<Rightarrow> string list \<Rightarrow> bool" where
  "secExprs_inner s1 [] = True"
| "secExprs_inner s1 (s2 # rest) = (if s1 \<noteq> s2 then False else secExprs_inner s1 rest)"

fun secExprs_outer :: "string list \<Rightarrow> string list \<Rightarrow> bool" where
  "secExprs_outer [] ys = True"
| "secExprs_outer (s1 # rest) ys =
     (if secExprs_inner s1 ys then secExprs_outer rest ys else False)"

text \<open>
  \<^verbatim>\<open>IsEquivalentIndex(d1, d2 *IndexDefn) bool\<close>, for two pointers that are not nil.
  The first disjunct is written as the source has it: \<^verbatim>\<open>d1.Using != d1.Using\<close>.
\<close>

definition IsEquivalentIndex :: "IndexDefn \<Rightarrow> IndexDefn \<Rightarrow> bool" where
  "IsEquivalentIndex d1 d2 =
     (if Using d1 \<noteq> Using d1 \<or>
         Bucket d1 \<noteq> Bucket d2 \<or>
         IsPrimary d1 \<noteq> IsPrimary d2 \<or>
         ExprType d1 \<noteq> ExprType d2 \<or>
         PartitionScheme d1 \<noteq> PartitionScheme d2 \<or>
         PartitionKey d1 \<noteq> PartitionKey d2 \<or>
         WhereExpr d1 \<noteq> WhereExpr d2
      then False
      else secExprs_outer (SecExprs d1) (SecExprs d2))"

text \<open>The zero value \<^verbatim>\<open>&common.IndexDefn{}\<close>.\<close>

definition IndexDefn_zero :: IndexDefn where
  "IndexDefn_zero =
     \<lparr> DefnId = 0, Name = [], Using = [], Bucket = [], BucketUUID = [],
       IsPrimary = False, SecExprs = [], ExprType = [], PartitionScheme = [],
       PartitionKey = [], WhereExpr = [], Deferred = False, Immutable = False,
       Nodes = [], IsArrayIndex = False \<rparr>"

text \<open>An index definition with two distinct secondary expressions.\<close>

definition defn_two_exprs :: IndexDefn where
  "defn_two_exprs =
     \<lparr> DefnId = 1, Name = ''idx'', Using = ''memdb'', Bucket = ''default'',
       BucketUUID = [], IsPrimary = False, SecExprs = [''a'', ''b''],
       ExprType = ''N1QL'', PartitionScheme = ''SINGLE'', PartitionKey = [],
       WhereExpr = [], Deferred = False, Immutable = False, Nodes = [],
       IsArrayIndex = False \<rparr>"


section \<open>Admin client: the retry wrapper (projector/client)\<close>

text \<open>
  Go's \<^verbatim>\<open>int\<close> is a machine integer; it is taken here at its 64-bit width,
  read as two's complement by \<open>sint\<close>, and its multiplication wraps around.
\<close>

type_synonym go_int = "64 word"

text \<open>
  The configuration fields of \<^verbatim>\<open>Client\<close>. The transport handle \<^verbatim>\<open>ap\<close> is only
  used inside the closures handed to \<^verbatim>\<open>withRetry\<close>.
\<close>

record Client =
  adminport :: string
  maxVbuckets :: go_int
  retryInterval :: go_int
  maxRetries :: go_int
  expBackoff :: go_int

text \<open>\<^verbatim>\<open>strings.HasPrefix(s, prefix)\<close> and \<^verbatim>\<open>strings.Contains(s, substr)\<close>.\<close>

fun HasPrefix :: "string \<Rightarrow> string \<Rightarrow> bool" where
  "HasPrefix s [] = True"
| "HasPrefix [] (c # cs) = False"
| "HasPrefix (d # ds) (c # cs) = (d = c \<and> HasPrefix ds cs)"

fun Contains :: "string \<Rightarrow> string \<Rightarrow> bool" where
  "Contains [] substr = HasPrefix [] substr"
| "Contains (c # cs) substr = (HasPrefix (c # cs) substr \<or> Contains cs substr)"

text \<open>
  What one run of \<^verbatim>\<open>withRetry\<close> does: the error it returns (\<open>None\<close> is Go's
  \<^verbatim>\<open>nil\<close>, an error is represented by its message), how many times it called
  \<^verbatim>\<open>fn\<close>, and the intervals (in milliseconds) it handed to \<^verbatim>\<open>time.Sleep\<close>, in
  order.
\<close>

record retry_run =
  returned :: "string option"
  attempts :: nat
  sleeps :: "go_int list"

text \<open>
  The \<^verbatim>\<open>for\<close> loop of \<^verbatim>\<open>withRetry\<close>. The closure \<^verbatim>\<open>fn\<close> is represented by the
  outcomes of its successive calls: \<open>fn k\<close> is the error of call number \<open>k\<close>
  (counted from 0). \<open>interval\<close> and \<open>retries\<close> are the loop's local variables
  \<^verbatim>\<open>interval\<close> and \<^verbatim>\<open>maxRetries\<close>; \<open>k\<close> counts the calls made so far and
  \<open>slept\<close> collects the sleeps. The loop has no bound of its own, so the model
  takes fuel, one unit for each iteration, and returns \<open>None\<close> when the fuel is
  used up while the loop is still running.
\<close>

fun withRetry_loop ::
  "nat \<Rightarrow> Client \<Rightarrow> (nat \<Rightarrow> string option) \<Rightarrow> nat \<Rightarrow> go_int \<Rightarrow> go_int \<Rightarrow> go_int list
     \<Rightarrow> retry_run option" where
  "withRetry_loop 0 client fn k interval retries slept = None"
| "withRetry_loop (Suc fuel) client fn k interval retries slept =
     (case fn k of
        None \<Rightarrow> Some \<lparr>returned = None, attempts = Suc k, sleeps = slept\<rparr>
      | Some msg \<Rightarrow>
          if Contains msg ''connection refused'' = False
          then Some \<lparr>returned = Some msg, attempts = Suc k, sleeps = slept\<rparr>
          else if sint interval \<le> 0
          then Some \<lparr>returned = Some msg, attempts = Suc k, sleeps = slept\<rparr>
          else
            let retries' = (if 0 < sint retries then retries - 1 else retries) in
            if 0 < sint retries \<and> retries' = 0
            then Some \<lparr>returned = Some msg, attempts = Suc k, sleeps = slept\<rparr>
            else withRetry_loop fuel client fn (Suc k)
                   (if 0 < sint (expBackoff client) then interval * expBackoff client
                    else interval)
                   retries' (slept @ [interval]))"

definition withRetry :: "nat \<Rightarrow> Client \<Rightarrow> (nat \<Rightarrow> string option) \<Rightarrow> retry_run option" where
  "withRetry fuel client fn =
     withRetry_loop fuel client fn 0 (retryInterval client) (maxRetries client) []"

text \<open>A transport error of the kind the wrapper retries on.\<close>

definition refused :: string where
  "refused = ''dial tcp 127.0.0.1:9999: connection refused''"

text \<open>
  A client configured to retry for ever (\<open>maxRetries = 0\<close>) every 4 milliseconds,
  with a back-off multiplier of \<open>2 ^ 62\<close>.
\<close>

definition client_backoff_wraps :: Client where
  "client_backoff_wraps =
     \<lparr> adminport = ''localhost:9999'', maxVbuckets = 1024,
       retryInterval = 4, maxRetries = 0, expBackoff = 2 ^ 62 \<rparr>"

text \<open>The client of the specification's scenario S2.\<close>

definition client_S2 :: Client where
  "client_S2 =
     \<lparr> adminport = ''localhost:9999'', maxVbuckets = 1024,
       retryInterval = 100, maxRetries = 3, expBackoff = 2 \<rparr>"

section \<open>KV data path (projector)\<close>

subsection \<open>Upstream events and vbucket routines\<close>

text \<open>
  A vbucket number is a \<^verbatim>\<open>uint16\<close>. \<^verbatim>\<open>*Engine\<close> and \<^verbatim>\<open>c.RouterEndpoint\<close> values
  are only stored and handed on by the data path; they are represented by
  opaque identifiers.
\<close>

type_synonym vbno = "16 word"
type_synonym Engine = nat
type_synonym RouterEndpoint = nat

text \<open>
  The opcodes and statuses that \<^verbatim>\<open>scatterMutation\<close> distinguishes; every other
  opcode is \<open>UPR_OTHER\<close> and every other status \<open>OTHER_STATUS\<close>.
\<close>

datatype opcode =
  UPR_STREAMREQ | UPR_STREAMEND | UPR_MUTATION | UPR_DELETION | UPR_SNAPSHOT
| UPR_EXPIRATION | UPR_OTHER

datatype status = SUCCESS | ROLLBACK | OTHER_STATUS

text \<open>
  A failover log is a pointer to a list of (vbuuid, seqno) pairs; \<open>None\<close> is the
  nil pointer. Of \<^verbatim>\<open>mc.UprEvent\<close> the fields the data path reads or writes are
  kept.
\<close>

type_synonym FailoverLog = "(64 word \<times> 64 word) list option"

record UprEvent =
  Opcode :: opcode
  Status :: status
  VBucket :: vbno
  VBuuid :: "64 word"
  Seqno :: "64 word"
  FailoverLog :: FailoverLog

text \<open>
  The vbucket routine is a collaborator of the data path. It is represented by
  the arguments \<^verbatim>\<open>NewVbucketRoutine\<close> was called with and by the calls made on it
  since, in order.
\<close>

datatype vr_call =
  VrAddEngines "64 word \<rightharpoonup> Engine" "string \<rightharpoonup> RouterEndpoint"
| VrDeleteEngines "64 word list"
| VrEvent UprEvent
| VrGetStatistics

record VbucketRoutine =
  vr_topic :: string
  vr_bucket :: string
  vr_kvaddr :: string
  vr_vbno :: vbno
  vr_vbuuid :: "64 word"
  vr_seqno :: "64 word"
  vr_calls :: "vr_call list"

definition NewVbucketRoutine ::
  "string \<Rightarrow> string \<Rightarrow> string \<Rightarrow> vbno \<Rightarrow> 64 word \<Rightarrow> 64 word \<Rightarrow> VbucketRoutine" where
  "NewVbucketRoutine t b kvn vb vbuuid seqno =
     \<lparr> vr_topic = t, vr_bucket = b, vr_kvaddr = kvn, vr_vbno = vb,
       vr_vbuuid = vbuuid, vr_seqno = seqno, vr_calls = [] \<rparr>"

definition vr_called :: "vr_call \<Rightarrow> VbucketRoutine \<Rightarrow> VbucketRoutine" where
  "vr_called c vr = vr\<lparr>vr_calls := vr_calls vr @ [c]\<rparr>"

text \<open>The messages the data path posts on the feed's back channel.\<close>

datatype feed_post =
  PostStreamRequest string string UprEvent
| PostStreamEnd string string UprEvent
| PostFinKVdata string string

text \<open>
  The run-time panics of the data path: a slice index out of range, a failed
  type assertion on an \<^verbatim>\<open>interface{}\<close> value, and the explicit \<^verbatim>\<open>panic(err)\<close>
  of \<^verbatim>\<open>scatterMutation\<close> when \<^verbatim>\<open>FailoverLog.Latest\<close> returns an error.
\<close>

datatype go_panic = IndexOutOfRange | InterfaceConversion | FailoverLogError

subsection \<open>The data path and its scatter function\<close>

text \<open>
  \<^verbatim>\<open>KVData\<close>. The map \<^verbatim>\<open>vrs\<close> holds pointers to routines: \<open>store\<close> is the heap of
  all routines created so far and \<open>vrs\<close> maps a vbucket number to an address in
  it. \<open>posted\<close> collects the messages sent to the feed, and \<open>finch_closed\<close> says
  whether the channel \<^verbatim>\<open>finch\<close> has been closed. The server channel \<^verbatim>\<open>sbch\<close> is
  the source of the commands in the input of \<open>runScatter_loop\<close> below.
\<close>

record KVData =
  topic :: string
  bucket :: string
  kvaddr :: string
  vrs :: "vbno \<rightharpoonup> nat"
  engines :: "64 word \<rightharpoonup> Engine"
  endpoints :: "string \<rightharpoonup> RouterEndpoint"
  store :: "VbucketRoutine list"
  posted :: "feed_post list"
  finch_closed :: bool

text \<open>
  Modelled from the spec: \<^verbatim>\<open>FailoverLog.Latest\<close>, a method of the imported package
  \<^verbatim>\<open>gomemcached/client\<close> whose code is not among the sources. The spec has the
  failover log as the ordered history of a vbucket's (VBUUID, seqno) pairs, of
  which the newest is used. A history grows at its end, so its newest entry is
  the last one, \<^verbatim>\<open>flog[len(flog)-1]\<close>. For the nil pointer the method returns an
  error (\<open>Inr None\<close>); an empty log has no last entry, the index is out of range
  and the call panics (\<open>Inl\<close>).
\<close>

definition Latest :: "FailoverLog \<Rightarrow> go_panic + (64 word \<times> 64 word) option" where
  "Latest flogp =
     (case flogp of
        None \<Rightarrow> Inr None
      | Some flog \<Rightarrow> if flog = [] then Inl IndexOutOfRange else Inr (Some (last flog)))"

text \<open>
  Functions of other packages that the data path calls, taken as parameters:
  \<^verbatim>\<open>TsVbuuid.SeqnoFor\<close> (its first result; the source drops the error) and
  \<^verbatim>\<open>TsVbuuid.Union\<close>. The type \<open>'ts\<close> stands for \<^verbatim>\<open>*protobuf.TsVbuuid\<close>.
\<close>

record 'ts externals =
  Ts_SeqnoFor :: "'ts \<Rightarrow> vbno \<Rightarrow> 64 word"
  Ts_Union :: "'ts \<Rightarrow> 'ts \<Rightarrow> 'ts"

text \<open>
  The data path that \<^verbatim>\<open>NewKVData\<close> builds: no routine yet, and copies of the
  engines and endpoints it is given.
\<close>

definition NewKVData ::
  "string \<Rightarrow> string \<Rightarrow> string \<Rightarrow> (64 word \<rightharpoonup> Engine) \<Rightarrow> (string \<rightharpoonup> RouterEndpoint)
     \<Rightarrow> KVData" where
  "NewKVData feed_topic bucketn kvaddrn engs endps =
     \<lparr> topic = feed_topic, bucket = bucketn, kvaddr = kvaddrn, vrs = Map.empty,
       engines = Map.empty ++ engs, endpoints = Map.empty ++ endps,
       store = [], posted = [], finch_closed = False \<rparr>"

text \<open>
  A call on the routine at address \<open>p\<close>, and the same call on every routine the
  map \<open>vrs\<close> points to (a \<^verbatim>\<open>range\<close> over the map).
\<close>

definition call_at :: "nat \<Rightarrow> vr_call \<Rightarrow> KVData \<Rightarrow> KVData" where
  "call_at p c kvdata =
     kvdata\<lparr>store := (store kvdata)[p := vr_called c (store kvdata ! p)]\<rparr>"

definition call_all :: "vr_call \<Rightarrow> KVData \<Rightarrow> KVData" where
  "call_all c kvdata =
     kvdata\<lparr>store :=
       map (\<lambda>(p, vr). if p \<in> ran (vrs kvdata) then vr_called c vr else vr)
         (enumerate 0 (store kvdata))\<rparr>"

definition post :: "feed_post \<Rightarrow> KVData \<Rightarrow> KVData" where
  "post x kvdata = kvdata\<lparr>posted := posted kvdata @ [x]\<rparr>"

text \<open>
  \<^verbatim>\<open>scatterMutation\<close>. The result is the data path after the call and the panic
  the call ended with, if any. The branches that only write to the log change
  nothing. In the branch that creates a routine the event \<open>m\<close> is updated in
  place before it is forwarded: its \<open>VBuuid\<close> becomes the one of the failover
  log's latest entry and its \<open>Seqno\<close> the one the timestamp \<open>ts\<close> has for the
  vbucket.
\<close>

definition scatterMutation ::
  "'ts externals \<Rightarrow> KVData \<Rightarrow> UprEvent \<Rightarrow> 'ts \<Rightarrow> KVData \<times> go_panic option" where
  "scatterMutation ext kvdata m ts =
     (let vbno = VBucket m in
      case Opcode m of
        UPR_STREAMREQ \<Rightarrow>
          if Status m = ROLLBACK then
            (post (PostStreamRequest (bucket kvdata) (kvaddr kvdata) m) kvdata, None)
          else if Status m \<noteq> SUCCESS then
            (post (PostStreamRequest (bucket kvdata) (kvaddr kvdata) m) kvdata, None)
          else if vrs kvdata vbno \<noteq> None then
            (post (PostStreamRequest (bucket kvdata) (kvaddr kvdata) m) kvdata, None)
          else
            (case Latest (FailoverLog m) of
               Inl p \<Rightarrow> (kvdata, Some p)
             | Inr None \<Rightarrow> (kvdata, Some FailoverLogError)
             | Inr (Some (vbuuid, _)) \<Rightarrow>
                 let m1 = m\<lparr>VBuuid := vbuuid\<rparr>;
                     m2 = m1\<lparr>Seqno := Ts_SeqnoFor ext ts vbno\<rparr>;
                     vr = NewVbucketRoutine (topic kvdata) (bucket kvdata) (kvaddr kvdata)
                            vbno (VBuuid m2) (Seqno m2);
                     vr1 = vr_called (VrAddEngines (engines kvdata) (endpoints kvdata)) vr;
                     vr2 = vr_called (VrEvent m2) vr1;
                     kvdata1 = kvdata\<lparr>store := store kvdata @ [vr2],
                                 vrs := (vrs kvdata)(vbno \<mapsto> length (store kvdata))\<rparr>
                 in (post (PostStreamRequest (bucket kvdata) (kvaddr kvdata) m2) kvdata1,
                     None))
      | UPR_STREAMEND \<Rightarrow>
          (case vrs kvdata vbno of
             None \<Rightarrow> (post (PostStreamEnd (bucket kvdata) (kvaddr kvdata) m) kvdata, None)
           | Some p \<Rightarrow>
               if Status m \<noteq> SUCCESS then
                 (post (PostStreamEnd (bucket kvdata) (kvaddr kvdata) m) kvdata, None)
               else
                 let kvdata1 = call_at p (VrEvent m) kvdata;
                     kvdata2 = kvdata1\<lparr>vrs := (vrs kvdata1)(vbno := None)\<rparr>
                 in (post (PostStreamEnd (bucket kvdata) (kvaddr kvdata) m) kvdata2, None))
      | UPR_MUTATION \<Rightarrow>
          (case vrs kvdata vbno of Some p \<Rightarrow> (call_at p (VrEvent m) kvdata, None)
           | None \<Rightarrow> (kvdata, None))
      | UPR_DELETION \<Rightarrow>
          (case vrs kvdata vbno of Some p \<Rightarrow> (call_at p (VrEvent m) kvdata, None)
           | None \<Rightarrow> (kvdata, None))
      | UPR_SNAPSHOT \<Rightarrow>
          (case vrs kvdata vbno of Some p \<Rightarrow> (call_at p (VrEvent m) kvdata, None)
           | None \<Rightarrow> (kvdata, None))
      | UPR_EXPIRATION \<Rightarrow>
          (case vrs kvdata vbno of Some p \<Rightarrow> (call_at p (VrEvent m) kvdata, None)
           | None \<Rightarrow> (kvdata, None))
      | UPR_OTHER \<Rightarrow> (kvdata, None))"

subsection \<open>Control commands\<close>

text \<open>
  A command is a \<^verbatim>\<open>[]interface{}\<close>; its elements are the values the five API
  functions put into it. A channel is represented by an identifier.
\<close>

datatype 'ts iface =
  IByte "8 word"
| IEngines "64 word \<rightharpoonup> Engine"
| IEndpoints "string \<rightharpoonup> RouterEndpoint"
| IKeys "64 word list"
| ITs 'ts
| IChan nat
| INil

text \<open>
  What the handler sends on a reply channel: \<^verbatim>\<open>[]interface{}{nil}\<close>, or the
  statistics, of which the vbuckets reported on are kept.
\<close>

datatype reply = RNil | RStats "vbno \<rightharpoonup> nat"

definition kvCmdAddEngines :: "8 word" where "kvCmdAddEngines = 1"
definition kvCmdDelEngines :: "8 word" where "kvCmdDelEngines = 2"
definition kvCmdTs :: "8 word" where "kvCmdTs = 3"
definition kvCmdGetStats :: "8 word" where "kvCmdGetStats = 4"
definition kvCmdClose :: "8 word" where "kvCmdClose = 5"

text \<open>
  The command each API function builds, given the reply channel \<open>respch\<close> it has
  just made. \<^verbatim>\<open>UpdateTs\<close> makes a reply channel as the others do, and builds
  \<^verbatim>\<open>[]interface{}{kvCmdTs, ts}\<close>.
\<close>

definition AddEngines_cmd ::
  "(64 word \<rightharpoonup> Engine) \<Rightarrow> (string \<rightharpoonup> RouterEndpoint) \<Rightarrow> nat \<Rightarrow> 'ts iface list" where
  "AddEngines_cmd engs endps respch =
     [IByte kvCmdAddEngines, IEngines engs, IEndpoints endps, IChan respch]"

definition DeleteEngines_cmd :: "64 word list \<Rightarrow> nat \<Rightarrow> 'ts iface list" where
  "DeleteEngines_cmd engineKeys respch =
     [IByte kvCmdDelEngines, IKeys engineKeys, IChan respch]"

definition UpdateTs_cmd :: "'ts \<Rightarrow> nat \<Rightarrow> 'ts iface list" where
  "UpdateTs_cmd ts respch = [IByte kvCmdTs, ITs ts]"

definition GetStatistics_cmd :: "nat \<Rightarrow> 'ts iface list" where
  "GetStatistics_cmd respch = [IByte kvCmdGetStats, IChan respch]"

definition Close_cmd :: "nat \<Rightarrow> 'ts iface list" where
  "Close_cmd respch = [IByte kvCmdClose, IChan respch]"

text \<open>
  Reading \<^verbatim>\<open>msg[i]\<close> with a type assertion: the index may be out of range and
  the assertion may fail, and both panic. For the engines and endpoints of
  \<^verbatim>\<open>kvCmdAddEngines\<close> the handler tests \<^verbatim>\<open>msg[i] != nil\<close> first and skips a nil
  value, which adds nothing.
\<close>

definition as_byte :: "'ts iface list \<Rightarrow> nat \<Rightarrow> go_panic + 8 word" where
  "as_byte msg i =
     (if i < length msg
      then (case msg ! i of IByte b \<Rightarrow> Inr b | _ \<Rightarrow> Inl InterfaceConversion)
      else Inl IndexOutOfRange)"

definition as_chan :: "'ts iface list \<Rightarrow> nat \<Rightarrow> go_panic + nat" where
  "as_chan msg i =
     (if i < length msg
      then (case msg ! i of IChan c \<Rightarrow> Inr c | _ \<Rightarrow> Inl InterfaceConversion)
      else Inl IndexOutOfRange)"

definition as_keys :: "'ts iface list \<Rightarrow> nat \<Rightarrow> go_panic + 64 word list" where
  "as_keys msg i =
     (if i < length msg
      then (case msg ! i of IKeys ks \<Rightarrow> Inr ks | _ \<Rightarrow> Inl InterfaceConversion)
      else Inl IndexOutOfRange)"

definition as_ts :: "'ts iface list \<Rightarrow> nat \<Rightarrow> go_panic + 'ts" where
  "as_ts msg i =
     (if i < length msg
      then (case msg ! i of ITs t \<Rightarrow> Inr t | _ \<Rightarrow> Inl InterfaceConversion)
      else Inl IndexOutOfRange)"

definition as_engines_unless_nil ::
  "'ts iface list \<Rightarrow> nat \<Rightarrow> go_panic + (64 word \<rightharpoonup> Engine)" where
  "as_engines_unless_nil msg i =
     (if i < length msg
      then (case msg ! i of INil \<Rightarrow> Inr Map.empty | IEngines e \<Rightarrow> Inr e
            | _ \<Rightarrow> Inl InterfaceConversion)
      else Inl IndexOutOfRange)"

definition as_endpoints_unless_nil ::
  "'ts iface list \<Rightarrow> nat \<Rightarrow> go_panic + (string \<rightharpoonup> RouterEndpoint)" where
  "as_endpoints_unless_nil msg i =
     (if i < length msg
      then (case msg ! i of INil \<Rightarrow> Inr Map.empty | IEndpoints e \<Rightarrow> Inr e
            | _ \<Rightarrow> Inl InterfaceConversion)
      else Inl IndexOutOfRange)"

subsection \<open>The scatter loop\<close>

text \<open>Why the loop of \<^verbatim>\<open>runScatter\<close> was left.\<close>

datatype exit_reason = UpstreamClosed | VbucketsEnded | CloseCommand | Panicked go_panic

text \<open>
  The state of the goroutine: the data path, the local timestamp \<^verbatim>\<open>ts\<close>, the
  local counter \<^verbatim>\<open>eventCount\<close>, and the values sent on reply channels so far,
  each with its channel.
\<close>

record 'ts scatter =
  kv :: KVData
  cur_ts :: "'ts"
  eventCount :: "64 word"
  replies :: "(nat \<times> reply) list"

definition send :: "nat \<Rightarrow> reply \<Rightarrow> 'ts scatter \<Rightarrow> 'ts scatter" where
  "send respch r s = s\<lparr>replies := replies s @ [(respch, r)]\<rparr>"

definition delete_keys :: "'k list \<Rightarrow> ('k \<rightharpoonup> 'v) \<Rightarrow> ('k \<rightharpoonup> 'v)" where
  "delete_keys ks m = fold (\<lambda>k m'. m'(k := None)) ks m"

text \<open>
  The \<^verbatim>\<open>case msg := <-kvdata.sbch\<close> branch of the loop: the state after the command
  and, when the loop is left, the reason. A panic keeps what was changed before
  it. A command byte that no \<^verbatim>\<open>case\<close> matches is ignored.
\<close>

definition handle_cmd ::
  "'ts externals \<Rightarrow> 'ts scatter \<Rightarrow> 'ts iface list \<Rightarrow> 'ts scatter \<times> exit_reason option" where
  "handle_cmd ext s msg =
     (case as_byte msg 0 of
        Inl p \<Rightarrow> (s, Some (Panicked p))
      | Inr cmd \<Rightarrow>
          if cmd = kvCmdAddEngines then
            (case as_chan msg 3 of
               Inl p \<Rightarrow> (s, Some (Panicked p))
             | Inr respch \<Rightarrow>
                 (case as_engines_unless_nil msg 1 of
                    Inl p \<Rightarrow> (s, Some (Panicked p))
                  | Inr engs \<Rightarrow>
                      let s1 = s\<lparr>kv := (kv s)\<lparr>engines := engines (kv s) ++ engs\<rparr>\<rparr> in
                      (case as_endpoints_unless_nil msg 2 of
                         Inl p \<Rightarrow> (s1, Some (Panicked p))
                       | Inr endps \<Rightarrow>
                           let k2 = (kv s1)\<lparr>endpoints := endpoints (kv s1) ++ endps\<rparr>;
                               k3 = call_all (VrAddEngines (engines k2) (endpoints k2)) k2
                           in (send respch RNil (s1\<lparr>kv := k3\<rparr>), None))))
          else if cmd = kvCmdDelEngines then
            (case as_keys msg 1 of
               Inl p \<Rightarrow> (s, Some (Panicked p))
             | Inr engineKeys \<Rightarrow>
                 (case as_chan msg 2 of
                    Inl p \<Rightarrow> (s, Some (Panicked p))
                  | Inr respch \<Rightarrow>
                      let k1 = call_all (VrDeleteEngines engineKeys) (kv s);
                          k2 = k1\<lparr>engines := delete_keys engineKeys (engines k1)\<rparr>
                      in (send respch RNil (s\<lparr>kv := k2\<rparr>), None)))
          else if cmd = kvCmdTs then
            (case as_ts msg 1 of
               Inl p \<Rightarrow> (s, Some (Panicked p))
             | Inr ts' \<Rightarrow>
                 let s1 = s\<lparr>cur_ts := Ts_Union ext (cur_ts s) ts'\<rparr> in
                 (case as_chan msg 2 of
                    Inl p \<Rightarrow> (s1, Some (Panicked p))
                  | Inr respch \<Rightarrow> (send respch RNil s1, None)))
          else if cmd = kvCmdGetStats then
            (case as_chan msg 1 of
               Inl p \<Rightarrow> (s, Some (Panicked p))
             | Inr respch \<Rightarrow>
                 let k1 = call_all VrGetStatistics (kv s)
                 in (send respch (RStats (vrs k1)) (s\<lparr>kv := k1\<rparr>), None))
          else if cmd = kvCmdClose then
            (case as_chan msg 1 of
               Inl p \<Rightarrow> (s, Some (Panicked p))
             | Inr respch \<Rightarrow> (send respch RNil s, Some CloseCommand))
          else (s, None))"

text \<open>
  What the \<^verbatim>\<open>select\<close> of the loop receives: from \<^verbatim>\<open>mutch\<close> an event, or \<open>None\<close>
  when the channel is closed (\<^verbatim>\<open>ok == false\<close>); from \<^verbatim>\<open>sbch\<close> a command.
\<close>

datatype 'ts input = Mutch "UprEvent option" | Sbch "'ts iface list"

text \<open>One iteration of the loop.\<close>

definition scatter_step ::
  "'ts externals \<Rightarrow> 'ts scatter \<Rightarrow> 'ts input \<Rightarrow> 'ts scatter \<times> exit_reason option" where
  "scatter_step ext s x =
     (case x of
        Mutch None \<Rightarrow> (s, Some UpstreamClosed)
      | Mutch (Some m) \<Rightarrow>
          (case scatterMutation ext (kv s) m (cur_ts s) of
             (k1, Some p) \<Rightarrow> (s\<lparr>kv := k1\<rparr>, Some (Panicked p))
           | (k1, None) \<Rightarrow>
               (s\<lparr>kv := k1, eventCount := eventCount s + 1\<rparr>,
                if vrs k1 = Map.empty then Some VbucketsEnded else None))
      | Sbch msg \<Rightarrow> handle_cmd ext s msg)"

text \<open>
  The loop, run on the sequence of values its \<^verbatim>\<open>select\<close> receives. The result is
  the state reached, the reason for which the loop was left (\<open>None\<close> when the
  inputs are used up and the loop waits in \<^verbatim>\<open>select\<close>), and the number of inputs
  consumed.
\<close>

fun runScatter_loop ::
  "'ts externals \<Rightarrow> 'ts scatter \<Rightarrow> 'ts input list
     \<Rightarrow> 'ts scatter \<times> exit_reason option \<times> nat" where
  "runScatter_loop ext s [] = (s, None, 0)"
| "runScatter_loop ext s (x # xs) =
     (case scatter_step ext s x of
        (s1, Some r) \<Rightarrow> (s1, Some r, 1)
      | (s1, None) \<Rightarrow>
          (case runScatter_loop ext s1 xs of (s2, r, n) \<Rightarrow> (s2, r, Suc n)))"

text \<open>
  The deferred function of \<^verbatim>\<open>runScatter\<close>, which also recovers from a panic:
  \<^verbatim>\<open>publishStreamEnd\<close>, the message to the feed, and the closing of \<^verbatim>\<open>finch\<close>.
\<close>

definition publishStreamEnd :: "KVData \<Rightarrow> KVData" where
  "publishStreamEnd kvdata =
     call_all (VrEvent \<lparr>Opcode = UPR_STREAMEND, Status = SUCCESS, VBucket = 0, VBuuid = 0,
                        Seqno = 0, FailoverLog = None\<rparr>) kvdata"

definition runScatter_deferred :: "KVData \<Rightarrow> KVData" where
  "runScatter_deferred kvdata =
     (let k1 = publishStreamEnd kvdata;
          k2 = post (PostFinKVdata (bucket k1) (kvaddr k1)) k1
      in k2\<lparr>finch_closed := True\<rparr>)"

definition scatter_init :: "KVData \<Rightarrow> 'ts \<Rightarrow> 'ts scatter" where
  "scatter_init kvdata ts = \<lparr>kv = kvdata, cur_ts = ts, eventCount = 0, replies = []\<rparr>"

definition runScatter ::
  "'ts externals \<Rightarrow> KVData \<Rightarrow> 'ts \<Rightarrow> 'ts input list
     \<Rightarrow> 'ts scatter \<times> exit_reason option \<times> nat" where
  "runScatter ext kvdata ts ins =
     (case runScatter_loop ext (scatter_init kvdata ts) ins of
        (s, None, n) \<Rightarrow> (s, None, n)
      | (s, Some r, n) \<Rightarrow> (s\<lparr>kv := runScatter_deferred (kv s)\<rparr>, Some r, n))"

subsection \<open>Routines of a vbucket\<close>

text \<open>
  A routine has ended once a stream end has been forwarded to it. The routines
  of a vbucket are the addresses of the routines created for it that have not
  ended.
\<close>

definition is_StreamEnd :: "vr_call \<Rightarrow> bool" where
  "is_StreamEnd c = (case c of VrEvent m \<Rightarrow> Opcode m = UPR_STREAMEND | _ \<Rightarrow> False)"

definition ended :: "VbucketRoutine \<Rightarrow> bool" where
  "ended vr = list_ex is_StreamEnd (vr_calls vr)"

definition routines_for :: "KVData \<Rightarrow> vbno \<Rightarrow> nat list" where
  "routines_for kvdata vb =
     filter (\<lambda>p. vr_vbno (store kvdata ! p) = vb \<and> \<not> ended (store kvdata ! p))
       [0..<length (store kvdata)]"

text \<open>
  The invariant that ties the map to the heap: an entry of the map points to a
  routine of that vbucket that has not ended, and a routine that has not ended
  is the one the map holds for its vbucket.
\<close>

definition kv_inv :: "KVData \<Rightarrow> bool" where
  "kv_inv k \<longleftrightarrow>
     (\<forall>vb p. vrs k vb = Some p \<longrightarrow>
        p < length (store k) \<and> vr_vbno (store k ! p) = vb \<and> \<not> ended (store k ! p)) \<and>
     (\<forall>p < length (store k). \<not> ended (store k ! p) \<longrightarrow>
        vrs k (vr_vbno (store k ! p)) = Some p)"

subsection \<open>A concrete data path\<close>

text \<open>
  Collaborators to run the data path with: a timestamp is a map from vbucket
  numbers to sequence numbers, and the union of two timestamps prefers the
  second.
\<close>

definition ext0 :: "(vbno \<rightharpoonup> 64 word) externals" where
  "ext0 =
     \<lparr> Ts_SeqnoFor = (\<lambda>ts vb. case ts vb of None \<Rightarrow> 0 | Some q \<Rightarrow> q),
       Ts_Union = (\<lambda>a b. a ++ b) \<rparr>"

definition kv0 :: KVData where
  "kv0 = NewKVData ''T'' ''default'' ''kv1:11210'' [7 \<mapsto> 1] [''ep1:9100'' \<mapsto> 2]"

definition ts0 :: "vbno \<rightharpoonup> 64 word" where
  "ts0 = [17 \<mapsto> 3]"

definition streamreq :: "vbno \<Rightarrow> UprEvent" where
  "streamreq vb =
     \<lparr> Opcode = UPR_STREAMREQ, Status = SUCCESS, VBucket = vb, VBuuid = 0, Seqno = 0,
       FailoverLog = Some [(99, 5), (42, 0)] \<rparr>"

definition mutation :: "vbno \<Rightarrow> UprEvent" where
  "mutation vb =
     \<lparr> Opcode = UPR_MUTATION, Status = SUCCESS, VBucket = vb, VBuuid = 0, Seqno = 10,
       FailoverLog = None \<rparr>"

definition streamend :: "vbno \<Rightarrow> UprEvent" where
  "streamend vb =
     \<lparr> Opcode = UPR_STREAMEND, Status = SUCCESS, VBucket = vb, VBuuid = 0, Seqno = 0,
       FailoverLog = None \<rparr>"

section \<open>Planner: transfer tokens and index specifications (secondary/planner)\<close>

subsection \<open>Data\<close>

text \<open>The struct \<^verbatim>\<open>IndexSpec\<close>; its sizes and rates are \<^verbatim>\<open>uint64\<close>.\<close>

record IndexSpec =
  Name :: string
  Bucket :: string
  IsPrimary :: bool
  SecExprs :: "string list"
  WhereExpr :: string
  Deferred :: bool
  Immutable :: bool
  IsArrayIndex :: bool
  Replica :: "64 word"
  NumDoc :: "64 word"
  DocKeySize :: "64 word"
  SecKeySize :: "64 word"
  ArrKeySize :: "64 word"
  ArrSize :: "64 word"
  MutationRate :: "64 word"
  ScanRate :: "64 word"

text \<open>
  Modelled from the spec: the struct declarations \<^verbatim>\<open>IndexUsage\<close>, \<^verbatim>\<open>IndexerNode\<close>
  and \<^verbatim>\<open>Solution\<close> are not among the source files. The specification's data
  model names their content; the records below have the fields that the source
  files read or write, under the names used there. \<^verbatim>\<open>Definition\<close> is a pointer
  that may be nil. \<^verbatim>\<open>initialNode\<close> is a pointer to the indexer node that owned
  the index (nil for a newly placed index); it is represented by the two fields
  that are read through it, which are not written after the node is set up.
\<close>

record NodeRef =
  ref_NodeId :: string
  ref_NodeUUID :: string

record IndexUsage =
  DefnId :: "64 word"
  InstId :: "64 word"
  Name :: string
  Bucket :: string
  Hosts :: "string list"
  IsPrimary :: bool
  IsMOI :: bool
  NumOfDocs :: "64 word"
  AvgDocKeySize :: "64 word"
  AvgSecKeySize :: "64 word"
  AvgArrKeySize :: "64 word"
  AvgArrSize :: "64 word"
  MutationRate :: "64 word"
  ScanRate :: "64 word"
  ActualMemUsage :: "64 word"
  ActualMemOverhead :: "64 word"
  ActualKeySize :: "64 word"
  Definition :: "IndexDefn option"
  initialNode :: "NodeRef option"

record IndexerNode =
  NodeId :: string
  NodeUUID :: string
  ActualMemUsage :: "64 word"
  ActualMemOverhead :: "64 word"
  Indexes :: "IndexUsage list"
  delete :: bool

record Solution =
  Placement :: "IndexerNode list"
  isLiveData :: bool

text \<open>The struct \<^verbatim>\<open>TransferToken\<close>.\<close>

record TransferToken =
  MasterId :: string
  SourceId :: string
  DestId :: string
  RebalId :: string
  State :: string
  InstId :: "64 word"
  IndexDefn :: IndexDefn

text \<open>How a planner function ends: with a panic, with an error, or with a result.\<close>

datatype planner_panic = NilPointerDereference | MakeSliceLenOutOfRange

datatype 'a outcome = Panic planner_panic | Error string | Ok 'a

subsection \<open>Transfer tokens\<close>

text \<open>
  \<^verbatim>\<open>genTransferToken\<close>. The identifiers come from \<^verbatim>\<open>common.NewUUID\<close>, whose error
  the source drops: \<open>uuids k\<close> is the string of the UUID generated by call number
  \<open>k\<close> (counted from 0) and \<open>ttid uuids k\<close> the key made of it; \<open>rebalId\<close> is
  \<^verbatim>\<open>topologyChange.ID\<close>. The inner loop
  goes through the indexes of one indexer; its state is the map of tokens and
  the number of UUIDs generated so far. Reading \<^verbatim>\<open>index.initialNode.NodeId\<close>
  through a nil pointer panics, and so does \<^verbatim>\<open>*index.Definition\<close>.
\<close>

definition ttid :: "(nat \<Rightarrow> string) \<Rightarrow> nat \<Rightarrow> string" where
  "ttid uuids k = ''TransferToken'' @ uuids k"

definition new_token :: "string \<Rightarrow> string \<Rightarrow> IndexerNode \<Rightarrow> IndexUsage \<Rightarrow> NodeRef \<Rightarrow> IndexDefn
    \<Rightarrow> TransferToken" where
  "new_token masterId rebalId indexer index ini defn =
     \<lparr> MasterId = masterId,
       SourceId = ref_NodeUUID ini,
       DestId = NodeUUID indexer,
       RebalId = rebalId,
       State = ''TransferTokenCreated'',
       InstId = IndexUsage.InstId index,
       IndexDefn = defn \<rparr>"

fun genTransferToken_indexes ::
  "string \<Rightarrow> string \<Rightarrow> (nat \<Rightarrow> string) \<Rightarrow> IndexerNode \<Rightarrow> IndexUsage list
     \<Rightarrow> (string \<rightharpoonup> TransferToken) \<times> nat
     \<Rightarrow> planner_panic + (string \<rightharpoonup> TransferToken) \<times> nat" where
  "genTransferToken_indexes masterId rebalId uuids indexer [] acc = Inr acc"
| "genTransferToken_indexes masterId rebalId uuids indexer (index # rest) (tokens, k) =
     (case initialNode index of
        None \<Rightarrow> Inl NilPointerDereference
      | Some ini \<Rightarrow>
          if ref_NodeId ini \<noteq> NodeId indexer then
            (case Definition index of
               None \<Rightarrow> Inl NilPointerDereference
             | Some defn \<Rightarrow>
                 let token = new_token masterId rebalId indexer index ini defn
                 in genTransferToken_indexes masterId rebalId uuids indexer rest
                      (tokens(ttid uuids k \<mapsto> token), Suc k))
          else genTransferToken_indexes masterId rebalId uuids indexer rest (tokens, k))"

fun genTransferToken_indexers ::
  "string \<Rightarrow> string \<Rightarrow> (nat \<Rightarrow> string) \<Rightarrow> IndexerNode list
     \<Rightarrow> (string \<rightharpoonup> TransferToken) \<times> nat
     \<Rightarrow> planner_panic + (string \<rightharpoonup> TransferToken) \<times> nat" where
  "genTransferToken_indexers masterId rebalId uuids [] acc = Inr acc"
| "genTransferToken_indexers masterId rebalId uuids (indexer # rest) acc =
     (case genTransferToken_indexes masterId rebalId uuids indexer (Indexes indexer) acc of
        Inl p \<Rightarrow> Inl p
      | Inr acc' \<Rightarrow> genTransferToken_indexers masterId rebalId uuids rest acc')"

definition genTransferToken ::
  "Solution \<Rightarrow> string \<Rightarrow> string \<Rightarrow> (nat \<Rightarrow> string) \<Rightarrow> (string \<rightharpoonup> TransferToken) outcome" where
  "genTransferToken solution masterId rebalId uuids =
     (case genTransferToken_indexers masterId rebalId uuids (Placement solution)
             (Map.empty, 0) of
        Inl p \<Rightarrow> Panic p
      | Inr (tokens, k) \<Rightarrow> Ok tokens)"

text \<open>
  The indexes of a solution whose node changed, each with the indexer that hosts
  it, in the order of the placement.
\<close>

definition has_moved :: "IndexerNode \<Rightarrow> IndexUsage \<Rightarrow> bool" where
  "has_moved indexer index =
     (case initialNode index of None \<Rightarrow> False
      | Some ini \<Rightarrow> ref_NodeId ini \<noteq> NodeId indexer)"

definition moved_of :: "IndexerNode \<Rightarrow> (IndexerNode \<times> IndexUsage) list" where
  "moved_of indexer = map (Pair indexer) (filter (has_moved indexer) (Indexes indexer))"

definition moved_indexes :: "Solution \<Rightarrow> (IndexerNode \<times> IndexUsage) list" where
  "moved_indexes solution = concat (map moved_of (Placement solution))"

subsection \<open>Index usages from a specification\<close>

text \<open>Go's \<^verbatim>\<open>%v\<close> of a non-negative \<^verbatim>\<open>int\<close>: its decimal digits.\<close>

function decimal :: "nat \<Rightarrow> string" where
  "decimal n =
     (if n < 10 then [''0123456789'' ! n]
      else decimal (n div 10) @ [''0123456789'' ! (n mod 10)])"
  by pat_completeness auto
termination
  by (relation "measure id") auto

text \<open>The zero value \<^verbatim>\<open>&IndexUsage{}\<close>.\<close>

definition IndexUsage_zero :: IndexUsage where
  "IndexUsage_zero =
     \<lparr> IndexUsage.DefnId = 0, IndexUsage.InstId = 0, IndexUsage.Name = [],
       IndexUsage.Bucket = [], Hosts = [], IndexUsage.IsPrimary = False,
       IsMOI = False, NumOfDocs = 0, AvgDocKeySize = 0, AvgSecKeySize = 0,
       AvgArrKeySize = 0, AvgArrSize = 0, IndexUsage.MutationRate = 0,
       IndexUsage.ScanRate = 0, IndexUsage.ActualMemUsage = 0,
       IndexUsage.ActualMemOverhead = 0, ActualKeySize = 0,
       Definition = None, initialNode = None \<rparr>"

text \<open>
  The body of the loop of \<^verbatim>\<open>indexUsageFromSpec\<close> up to the call of the sizing
  method: the index usage of replica \<open>i\<close>, where \<open>uuid\<close> is \<^verbatim>\<open>uuid.Uint64()\<close>.
\<close>

definition replica_usage :: "64 word \<Rightarrow> IndexSpec \<Rightarrow> nat \<Rightarrow> IndexUsage" where
  "replica_usage uuid spec i =
     (let name = (if i = 0 then IndexSpec.Name spec
                  else IndexSpec.Name spec @ ''_'' @ decimal i)
      in IndexUsage_zero
           \<lparr> IndexUsage.DefnId := uuid,
             IndexUsage.InstId := of_nat i,
             IndexUsage.Bucket := IndexSpec.Bucket spec,
             IsMOI := True,
             IndexUsage.IsPrimary := IndexSpec.IsPrimary spec,
             IndexUsage.Name := name,
             Definition := Some (IndexDefn_zero
               \<lparr> IndexDefn.Name := name,
                 IndexDefn.Bucket := IndexSpec.Bucket spec,
                 IndexDefn.IsPrimary := IndexSpec.IsPrimary spec,
                 IndexDefn.SecExprs := IndexSpec.SecExprs spec,
                 IndexDefn.WhereExpr := IndexSpec.WhereExpr spec,
                 IndexDefn.Immutable := IndexSpec.Immutable spec,
                 IndexDefn.IsArrayIndex := IndexSpec.IsArrayIndex spec \<rparr>),
             NumOfDocs := NumDoc spec,
             AvgDocKeySize := DocKeySize spec,
             AvgSecKeySize := SecKeySize spec,
             AvgArrKeySize := ArrKeySize spec,
             AvgArrSize := ArrSize spec,
             IndexUsage.MutationRate := IndexSpec.MutationRate spec,
             IndexUsage.ScanRate := IndexSpec.ScanRate spec \<rparr>)"

text \<open>
  The loop \<^verbatim>\<open>for i := 0; i < int(spec.Replica); i++\<close>. The sizing method is a
  parameter: \<open>sizing index\<close> is the index after \<^verbatim>\<open>sizing.ComputeIndexSize(index)\<close>.
  The counter is an \<^verbatim>\<open>int\<close> that starts at 0 and stays below \<^verbatim>\<open>int(spec.Replica)\<close>,
  so it does not wrap; \<open>result\<close> is the slice of pointers, nil at first.
\<close>

function indexUsageFromSpec_loop ::
  "(IndexUsage \<Rightarrow> IndexUsage) \<Rightarrow> 64 word \<Rightarrow> IndexSpec \<Rightarrow> nat \<Rightarrow> IndexUsage option list
     \<Rightarrow> IndexUsage option list" where
  "indexUsageFromSpec_loop sizing uuid spec i result =
     (if int i < sint (Replica spec)
      then indexUsageFromSpec_loop sizing uuid spec (Suc i)
             (result[i := Some (sizing (replica_usage uuid spec i))])
      else result)"
  by pat_completeness auto
termination
  by (relation "measure (\<lambda>(sizing, uuid, spec, i, result). nat (sint (Replica spec)) - i)") auto

text \<open>
  \<^verbatim>\<open>indexUsageFromSpec\<close>. \<^verbatim>\<open>make\<close> panics when the length does not fit an \<^verbatim>\<open>int\<close>
  or is more than \<open>maxlen\<close>, the longest slice of pointers the platform
  allocates. \<open>newUUID\<close> is the result of \<^verbatim>\<open>common.NewUUID()\<close>, \<open>None\<close> when it
  returns an error.
\<close>

definition indexUsageFromSpec ::
  "nat \<Rightarrow> (IndexUsage \<Rightarrow> IndexUsage) \<Rightarrow> 64 word option \<Rightarrow> IndexSpec
     \<Rightarrow> IndexUsage option list outcome" where
  "indexUsageFromSpec maxlen sizing newUUID spec =
     (if 2 ^ 63 \<le> unat (Replica spec) \<or> maxlen < unat (Replica spec)
      then Panic MakeSliceLenOutOfRange
      else
        case newUUID of
          None \<Rightarrow> Error ''unable to generate UUID''
        | Some uuid \<Rightarrow>
            Ok (indexUsageFromSpec_loop sizing uuid spec 0
                  (replicate (unat (Replica spec)) None)))"

subsection \<open>The tokens of a list of moved indexes\<close>

text \<open>
  The token of one moved index, and the map that holds a token for each element
  of a list of moved indexes, under the keys \<open>ttid uuids k\<close>,
  \<open>ttid uuids (k + 1)\<close> and so on. \<open>genTransferToken\<close> is compared with it below.
\<close>

definition token_of :: "string \<Rightarrow> string \<Rightarrow> IndexerNode \<times> IndexUsage \<Rightarrow> TransferToken" where
  "token_of masterId rebalId x =
     (case x of (indexer, index) \<Rightarrow>
        \<lparr> MasterId = masterId,
          SourceId = ref_NodeUUID (the (initialNode index)),
          DestId = NodeUUID indexer,
          RebalId = rebalId,
          State = ''TransferTokenCreated'',
          InstId = IndexUsage.InstId index,
          IndexDefn = the (Definition index) \<rparr>)"

fun add_tokens ::
  "string \<Rightarrow> string \<Rightarrow> (nat \<Rightarrow> string) \<Rightarrow> (IndexerNode \<times> IndexUsage) list
     \<Rightarrow> (string \<rightharpoonup> TransferToken) \<times> nat \<Rightarrow> (string \<rightharpoonup> TransferToken) \<times> nat" where
  "add_tokens masterId rebalId uuids [] acc = acc"
| "add_tokens masterId rebalId uuids (x # xs) (tokens, k) =
     add_tokens masterId rebalId uuids xs
       (tokens(ttid uuids k \<mapsto> token_of masterId rebalId x), Suc k)"

subsection \<open>A concrete specification and a concrete solution\<close>

definition spec3 :: IndexSpec where
  "spec3 =
     \<lparr> IndexSpec.Name = ''idx'', IndexSpec.Bucket = ''default'',
       IndexSpec.IsPrimary = False, IndexSpec.SecExprs = [''name''],
       IndexSpec.WhereExpr = [], IndexSpec.Deferred = False, IndexSpec.Immutable = False,
       IndexSpec.IsArrayIndex = False, Replica = 3, NumDoc = 1000, DocKeySize = 20,
       SecKeySize = 30, ArrKeySize = 0, ArrSize = 0, IndexSpec.MutationRate = 0,
       IndexSpec.ScanRate = 0 \<rparr>"

text \<open>
  Two indexer nodes. Node \<open>n2\<close> hosts two indexes of the definition
  \<open>defn_two_exprs\<close>: instance 1, which was on \<open>n1\<close> when planning started, and
  instance 2, which was on \<open>n2\<close>. Node \<open>n1\<close> is to be deleted.
\<close>

definition usage_on :: "64 word \<Rightarrow> NodeRef \<Rightarrow> IndexUsage" where
  "usage_on inst ini =
     IndexUsage_zero
       \<lparr> IndexUsage.DefnId := 1, IndexUsage.InstId := inst, IndexUsage.Name := ''idx'',
         IndexUsage.Bucket := ''default'', Definition := Some defn_two_exprs,
         initialNode := Some ini \<rparr>"

definition node1 :: IndexerNode where
  "node1 =
     \<lparr> NodeId = ''n1'', NodeUUID = ''uuid-n1'', IndexerNode.ActualMemUsage = 0,
       IndexerNode.ActualMemOverhead = 0, Indexes = [], delete = True \<rparr>"

definition node2 :: IndexerNode where
  "node2 =
     \<lparr> NodeId = ''n2'', NodeUUID = ''uuid-n2'', IndexerNode.ActualMemUsage = 0,
       IndexerNode.ActualMemOverhead = 0,
       Indexes = [usage_on 1 \<lparr>ref_NodeId = ''n1'', ref_NodeUUID = ''uuid-n1''\<rparr>,
                  usage_on 2 \<lparr>ref_NodeId = ''n2'', ref_NodeUUID = ''uuid-n2''\<rparr>],
       delete = False \<rparr>"

definition solution0 :: Solution where
  "solution0 = \<lparr> Placement = [node1, node2], isLiveData = True \<rparr>"

text \<open>A supply of identifiers that are pairwise different.\<close>

definition uuids0 :: "nat \<Rightarrow> string" where
  "uuids0 k = replicate (Suc k) (CHR ''a'')"

section \<open>Plans and their JSON files (secondary/planner)\<close>

subsection \<open>JSON values as \<^verbatim>\<open>encoding/json\<close> writes and reads them\<close>

text \<open>
  The struct \<^verbatim>\<open>Plan\<close>. A slice is a list: the nil slice and the empty slice are
  both \<open>[]\<close>, and the pointers in \<^verbatim>\<open>Placement\<close> are taken not to be nil.
\<close>

record Plan =
  Placement :: "IndexerNode list"
  MemQuota :: "64 word"
  CpuQuota :: "64 word"
  IsLive :: bool

text \<open>
  A file written by \<^verbatim>\<open>json.MarshalIndent\<close> is represented by the JSON value it
  denotes; a number is a natural number, since every number the planner's
  structs hold here is a \<^verbatim>\<open>uint64\<close>.
\<close>

datatype json =
  JNull | JBool bool | JNum nat | JStr string | JArr "json list"
| JObj "(string \<times> json) list"

text \<open>
  A struct becomes an object with one member for each exported field, in the
  order of the declaration; a field tagged \<^verbatim>\<open>omitempty\<close> is left out when it is
  empty (false, 0, a nil pointer, a slice or string of length 0). A field whose
  name starts with a lower-case letter is not exported and is never written. A
  member is given here as its key, its value and whether it is left out.
\<close>

definition obj_members :: "(string \<times> json \<times> bool) list \<Rightarrow> (string \<times> json) list" where
  "obj_members ms = map (\<lambda>(k, v, om). (k, v)) (filter (\<lambda>(k, v, om). om = False) ms)"

text \<open>
  \<^verbatim>\<open>json.Marshal\<close> writes a Go string as a JSON string after replacing the bytes
  that are not valid UTF-8; \<open>coerce\<close> is that replacement, a parameter. The
  encoders of a string, a \<^verbatim>\<open>uint64\<close> and a slice of strings (a nil slice is
  written as \<^verbatim>\<open>null\<close>):
\<close>

definition enc_string :: "(string \<Rightarrow> string) \<Rightarrow> string \<Rightarrow> json" where
  "enc_string coerce s = JStr (coerce s)"

definition enc_uint64 :: "64 word \<Rightarrow> json" where
  "enc_uint64 w = JNum (unat w)"

definition enc_strings :: "(string \<Rightarrow> string) \<Rightarrow> string list \<Rightarrow> json" where
  "enc_strings coerce xs = (if xs = [] then JNull else JArr (map (enc_string coerce) xs))"

text \<open>
  \<^verbatim>\<open>json.Unmarshal\<close> into a fresh struct: a member sets the field of its key, the
  last one when a key is repeated; a field without a member keeps its zero
  value, and so does a field whose member is \<^verbatim>\<open>null\<close>; a value of another JSON
  type than the field's is an error (\<open>None\<close>). Keys are matched exactly here
  (\<^verbatim>\<open>encoding/json\<close> also accepts a key that differs in case only, which the
  encoder never writes).
\<close>

definition lookup_member :: "(string \<times> json) list \<Rightarrow> string \<Rightarrow> json option" where
  "lookup_member ms k = map_of (rev ms) k"

definition read_field :: "(string \<times> json) list \<Rightarrow> string \<Rightarrow> (json \<Rightarrow> 'a option) \<Rightarrow> 'a \<Rightarrow> 'a option" where
  "read_field ms k dec zero = (case lookup_member ms k of None \<Rightarrow> Some zero | Some j \<Rightarrow> dec j)"

definition dec_string :: "json \<Rightarrow> string option" where
  "dec_string j = (case j of JStr s \<Rightarrow> Some s | JNull \<Rightarrow> Some [] | _ \<Rightarrow> None)"

definition dec_uint64 :: "json \<Rightarrow> 64 word option" where
  "dec_uint64 j =
     (case j of
        JNum n \<Rightarrow> if n < 2 ^ 64 then Some (of_nat n) else None
      | JNull \<Rightarrow> Some 0
      | _ \<Rightarrow> None)"

definition dec_bool :: "json \<Rightarrow> bool option" where
  "dec_bool j = (case j of JBool b \<Rightarrow> Some b | JNull \<Rightarrow> Some False | _ \<Rightarrow> None)"

definition dec_list :: "(json \<Rightarrow> 'a option) \<Rightarrow> json \<Rightarrow> 'a list option" where
  "dec_list dec j =
     (case j of JArr js \<Rightarrow> those (map dec js) | JNull \<Rightarrow> Some [] | _ \<Rightarrow> None)"

definition dec_pointer :: "(json \<Rightarrow> 'a option) \<Rightarrow> json \<Rightarrow> 'a option option" where
  "dec_pointer dec j = (case j of JNull \<Rightarrow> Some None | _ \<Rightarrow> map_option Some (dec j))"

subsection \<open>Index definitions\<close>

text \<open>The members of an \<^verbatim>\<open>IndexDefn\<close>, with the keys of its struct tags.\<close>

definition IndexDefn_members ::
  "(string \<Rightarrow> string) \<Rightarrow> IndexDefn \<Rightarrow> (string \<times> json \<times> bool) list" where
  "IndexDefn_members coerce d =
     [(''defnId'', enc_uint64 (IndexDefn.DefnId d), IndexDefn.DefnId d = 0),
      (''name'', enc_string coerce (IndexDefn.Name d), IndexDefn.Name d = []),
      (''using'', enc_string coerce (Using d), Using d = []),
      (''bucket'', enc_string coerce (IndexDefn.Bucket d), IndexDefn.Bucket d = []),
      (''bucketUUID'', enc_string coerce (BucketUUID d), BucketUUID d = []),
      (''isPrimary'', JBool (IndexDefn.IsPrimary d), IndexDefn.IsPrimary d = False),
      (''secExprs'', enc_strings coerce (IndexDefn.SecExprs d), IndexDefn.SecExprs d = []),
      (''exprType'', enc_string coerce (ExprType d), ExprType d = []),
      (''partitionScheme'', enc_string coerce (PartitionScheme d), PartitionScheme d = []),
      (''partitionKey'', enc_string coerce (PartitionKey d), PartitionKey d = []),
      (''where'', enc_string coerce (IndexDefn.WhereExpr d), IndexDefn.WhereExpr d = []),
      (''deferred'', JBool (IndexDefn.Deferred d), IndexDefn.Deferred d = False),
      (''immutable'', JBool (IndexDefn.Immutable d), IndexDefn.Immutable d = False),
      (''nodes'', enc_strings coerce (Nodes d), Nodes d = []),
      (''isArrayIndex'', JBool (IndexDefn.IsArrayIndex d), IndexDefn.IsArrayIndex d = False)]"

definition enc_IndexDefn :: "(string \<Rightarrow> string) \<Rightarrow> IndexDefn \<Rightarrow> json" where
  "enc_IndexDefn coerce d = JObj (obj_members (IndexDefn_members coerce d))"

definition dec_IndexDefn_members :: "(string \<times> json) list \<Rightarrow> IndexDefn option" where
  "dec_IndexDefn_members ms =
     Option.bind (read_field ms ''defnId'' dec_uint64 0) (\<lambda>defnId.
     Option.bind (read_field ms ''name'' dec_string []) (\<lambda>name.
     Option.bind (read_field ms ''using'' dec_string []) (\<lambda>usingv.
     Option.bind (read_field ms ''bucket'' dec_string []) (\<lambda>bucketn.
     Option.bind (read_field ms ''bucketUUID'' dec_string []) (\<lambda>bucketUUID.
     Option.bind (read_field ms ''isPrimary'' dec_bool False) (\<lambda>isPrimary.
     Option.bind (read_field ms ''secExprs'' (dec_list dec_string) []) (\<lambda>secExprs.
     Option.bind (read_field ms ''exprType'' dec_string []) (\<lambda>exprType.
     Option.bind (read_field ms ''partitionScheme'' dec_string []) (\<lambda>partitionScheme.
     Option.bind (read_field ms ''partitionKey'' dec_string []) (\<lambda>partitionKey.
     Option.bind (read_field ms ''where'' dec_string []) (\<lambda>whereExpr.
     Option.bind (read_field ms ''deferred'' dec_bool False) (\<lambda>deferred.
     Option.bind (read_field ms ''immutable'' dec_bool False) (\<lambda>immutable.
     Option.bind (read_field ms ''nodes'' (dec_list dec_string) []) (\<lambda>nodes.
     Option.bind (read_field ms ''isArrayIndex'' dec_bool False) (\<lambda>isArrayIndex.
       Some \<lparr> IndexDefn.DefnId = defnId, IndexDefn.Name = name, Using = usingv,
              IndexDefn.Bucket = bucketn, BucketUUID = bucketUUID,
              IndexDefn.IsPrimary = isPrimary, IndexDefn.SecExprs = secExprs,
              ExprType = exprType, PartitionScheme = partitionScheme,
              PartitionKey = partitionKey, IndexDefn.WhereExpr = whereExpr,
              IndexDefn.Deferred = deferred, IndexDefn.Immutable = immutable,
              Nodes = nodes, IndexDefn.IsArrayIndex = isArrayIndex \<rparr>)))))))))))))))"

definition dec_IndexDefn :: "json \<Rightarrow> IndexDefn option" where
  "dec_IndexDefn j =
     (case j of JObj ms \<Rightarrow> dec_IndexDefn_members ms | JNull \<Rightarrow> Some IndexDefn_zero
      | _ \<Rightarrow> None)"

subsection \<open>Index usages and indexer nodes\<close>

text \<open>
  Modelled from the spec: the struct tags of \<^verbatim>\<open>IndexUsage\<close> and \<^verbatim>\<open>IndexerNode\<close>
  are not among the source files. Each exported field is written under its own
  name and none is left out; the names of the keys do not matter to what is
  read back. The fields \<^verbatim>\<open>initialNode\<close> and \<^verbatim>\<open>delete\<close> start with a lower-case
  letter: they are not exported, so they are not written, and reading leaves
  them at their zero values.
\<close>

definition IndexUsage_members ::
  "(string \<Rightarrow> string) \<Rightarrow> IndexUsage \<Rightarrow> (string \<times> json \<times> bool) list" where
  "IndexUsage_members coerce u =
     [(''DefnId'', enc_uint64 (IndexUsage.DefnId u), False),
      (''InstId'', enc_uint64 (IndexUsage.InstId u), False),
      (''Name'', enc_string coerce (IndexUsage.Name u), False),
      (''Bucket'', enc_string coerce (IndexUsage.Bucket u), False),
      (''Hosts'', enc_strings coerce (Hosts u), False),
      (''IsPrimary'', JBool (IndexUsage.IsPrimary u), False),
      (''IsMOI'', JBool (IsMOI u), False),
      (''NumOfDocs'', enc_uint64 (NumOfDocs u), False),
      (''AvgDocKeySize'', enc_uint64 (AvgDocKeySize u), False),
      (''AvgSecKeySize'', enc_uint64 (AvgSecKeySize u), False),
      (''AvgArrKeySize'', enc_uint64 (AvgArrKeySize u), False),
      (''AvgArrSize'', enc_uint64 (AvgArrSize u), False),
      (''MutationRate'', enc_uint64 (IndexUsage.MutationRate u), False),
      (''ScanRate'', enc_uint64 (IndexUsage.ScanRate u), False),
      (''ActualMemUsage'', enc_uint64 (IndexUsage.ActualMemUsage u), False),
      (''ActualMemOverhead'', enc_uint64 (IndexUsage.ActualMemOverhead u), False),
      (''ActualKeySize'', enc_uint64 (ActualKeySize u), False),
      (''Definition'',
         (case Definition u of None \<Rightarrow> JNull | Some d \<Rightarrow> enc_IndexDefn coerce d), False)]"

definition enc_IndexUsage :: "(string \<Rightarrow> string) \<Rightarrow> IndexUsage \<Rightarrow> json" where
  "enc_IndexUsage coerce u = JObj (obj_members (IndexUsage_members coerce u))"

definition dec_IndexUsage_members :: "(string \<times> json) list \<Rightarrow> IndexUsage option" where
  "dec_IndexUsage_members ms =
     Option.bind (read_field ms ''DefnId'' dec_uint64 0) (\<lambda>defnId.
     Option.bind (read_field ms ''InstId'' dec_uint64 0) (\<lambda>instId.
     Option.bind (read_field ms ''Name'' dec_string []) (\<lambda>name.
     Option.bind (read_field ms ''Bucket'' dec_string []) (\<lambda>bucketn.
     Option.bind (read_field ms ''Hosts'' (dec_list dec_string) []) (\<lambda>hosts.
     Option.bind (read_field ms ''IsPrimary'' dec_bool False) (\<lambda>isPrimary.
     Option.bind (read_field ms ''IsMOI'' dec_bool False) (\<lambda>isMOI.
     Option.bind (read_field ms ''NumOfDocs'' dec_uint64 0) (\<lambda>numOfDocs.
     Option.bind (read_field ms ''AvgDocKeySize'' dec_uint64 0) (\<lambda>avgDocKeySize.
     Option.bind (read_field ms ''AvgSecKeySize'' dec_uint64 0) (\<lambda>avgSecKeySize.
     Option.bind (read_field ms ''AvgArrKeySize'' dec_uint64 0) (\<lambda>avgArrKeySize.
     Option.bind (read_field ms ''AvgArrSize'' dec_uint64 0) (\<lambda>avgArrSize.
     Option.bind (read_field ms ''MutationRate'' dec_uint64 0) (\<lambda>mutationRate.
     Option.bind (read_field ms ''ScanRate'' dec_uint64 0) (\<lambda>scanRate.
     Option.bind (read_field ms ''ActualMemUsage'' dec_uint64 0) (\<lambda>actualMemUsage.
     Option.bind (read_field ms ''ActualMemOverhead'' dec_uint64 0) (\<lambda>actualMemOverhead.
     Option.bind (read_field ms ''ActualKeySize'' dec_uint64 0) (\<lambda>actualKeySize.
     Option.bind (read_field ms ''Definition'' (dec_pointer dec_IndexDefn) None) (\<lambda>defn.
       Some \<lparr> IndexUsage.DefnId = defnId, IndexUsage.InstId = instId,
              IndexUsage.Name = name, IndexUsage.Bucket = bucketn, Hosts = hosts,
              IndexUsage.IsPrimary = isPrimary, IsMOI = isMOI, NumOfDocs = numOfDocs,
              AvgDocKeySize = avgDocKeySize, AvgSecKeySize = avgSecKeySize,
              AvgArrKeySize = avgArrKeySize, AvgArrSize = avgArrSize,
              IndexUsage.MutationRate = mutationRate, IndexUsage.ScanRate = scanRate,
              IndexUsage.ActualMemUsage = actualMemUsage,
              IndexUsage.ActualMemOverhead = actualMemOverhead,
              ActualKeySize = actualKeySize, Definition = defn,
              initialNode = None \<rparr>))))))))))))))))))"

definition dec_IndexUsage :: "json \<Rightarrow> IndexUsage option" where
  "dec_IndexUsage j =
     (case j of JObj ms \<Rightarrow> dec_IndexUsage_members ms | JNull \<Rightarrow> Some IndexUsage_zero
      | _ \<Rightarrow> None)"

definition IndexerNode_zero :: IndexerNode where
  "IndexerNode_zero =
     \<lparr> NodeId = [], NodeUUID = [], IndexerNode.ActualMemUsage = 0,
       IndexerNode.ActualMemOverhead = 0, Indexes = [], delete = False \<rparr>"

definition IndexerNode_members ::
  "(string \<Rightarrow> string) \<Rightarrow> IndexerNode \<Rightarrow> (string \<times> json \<times> bool) list" where
  "IndexerNode_members coerce n =
     [(''NodeId'', enc_string coerce (NodeId n), False),
      (''NodeUUID'', enc_string coerce (NodeUUID n), False),
      (''ActualMemUsage'', enc_uint64 (IndexerNode.ActualMemUsage n), False),
      (''ActualMemOverhead'', enc_uint64 (IndexerNode.ActualMemOverhead n), False),
      (''Indexes'',
         (if Indexes n = [] then JNull else JArr (map (enc_IndexUsage coerce) (Indexes n))),
         False)]"

definition enc_IndexerNode :: "(string \<Rightarrow> string) \<Rightarrow> IndexerNode \<Rightarrow> json" where
  "enc_IndexerNode coerce n = JObj (obj_members (IndexerNode_members coerce n))"

definition dec_IndexerNode_members :: "(string \<times> json) list \<Rightarrow> IndexerNode option" where
  "dec_IndexerNode_members ms =
     Option.bind (read_field ms ''NodeId'' dec_string []) (\<lambda>nodeId.
     Option.bind (read_field ms ''NodeUUID'' dec_string []) (\<lambda>nodeUUID.
     Option.bind (read_field ms ''ActualMemUsage'' dec_uint64 0) (\<lambda>actualMemUsage.
     Option.bind (read_field ms ''ActualMemOverhead'' dec_uint64 0) (\<lambda>actualMemOverhead.
     Option.bind (read_field ms ''Indexes'' (dec_list dec_IndexUsage) []) (\<lambda>indexes.
       Some \<lparr> NodeId = nodeId, NodeUUID = nodeUUID,
              IndexerNode.ActualMemUsage = actualMemUsage,
              IndexerNode.ActualMemOverhead = actualMemOverhead,
              Indexes = indexes, delete = False \<rparr>)))))"

definition dec_IndexerNode :: "json \<Rightarrow> IndexerNode option" where
  "dec_IndexerNode j =
     (case j of JObj ms \<Rightarrow> dec_IndexerNode_members ms | JNull \<Rightarrow> Some IndexerNode_zero
      | _ \<Rightarrow> None)"

subsection \<open>Saving and reading a plan\<close>

text \<open>The members of a \<^verbatim>\<open>Plan\<close>, with the keys of its struct tags.\<close>

definition Plan_zero :: Plan where
  "Plan_zero = \<lparr> Plan.Placement = [], MemQuota = 0, CpuQuota = 0, IsLive = False \<rparr>"

definition Plan_members :: "(string \<Rightarrow> string) \<Rightarrow> Plan \<Rightarrow> (string \<times> json \<times> bool) list" where
  "Plan_members coerce p =
     [(''placement'', JArr (map (enc_IndexerNode coerce) (Plan.Placement p)),
         Plan.Placement p = []),
      (''memQuota'', enc_uint64 (MemQuota p), MemQuota p = 0),
      (''cpuQuota'', enc_uint64 (CpuQuota p), CpuQuota p = 0),
      (''isLive'', JBool (IsLive p), IsLive p = False)]"

definition enc_Plan :: "(string \<Rightarrow> string) \<Rightarrow> Plan \<Rightarrow> json" where
  "enc_Plan coerce p = JObj (obj_members (Plan_members coerce p))"

definition dec_Plan_members :: "(string \<times> json) list \<Rightarrow> Plan option" where
  "dec_Plan_members ms =
     Option.bind (read_field ms ''placement'' (dec_list dec_IndexerNode) []) (\<lambda>placement.
     Option.bind (read_field ms ''memQuota'' dec_uint64 0) (\<lambda>memQuota.
     Option.bind (read_field ms ''cpuQuota'' dec_uint64 0) (\<lambda>cpuQuota.
     Option.bind (read_field ms ''isLive'' dec_bool False) (\<lambda>isLive.
       Some \<lparr> Plan.Placement = placement, MemQuota = memQuota, CpuQuota = cpuQuota,
              IsLive = isLive \<rparr>))))"

definition dec_Plan :: "json \<Rightarrow> Plan option" where
  "dec_Plan j =
     (case j of JObj ms \<Rightarrow> dec_Plan_members ms | JNull \<Rightarrow> Some Plan_zero | _ \<Rightarrow> None)"

text \<open>
  The files: the content of each file that exists, and the paths that
  \<^verbatim>\<open>ioutil.WriteFile\<close> can write to.
\<close>

record files =
  content :: "string \<rightharpoonup> json"
  writable :: "string \<Rightarrow> bool"

datatype plan_error = UnableToSave | UnableToRead | UnableToParse

text \<open>
  \<^verbatim>\<open>savePlan\<close>. The quotas are what \<^verbatim>\<open>constraint.GetMemQuota()\<close> and
  \<^verbatim>\<open>constraint.GetCpuQuota()\<close> return. Nothing in the structs modelled here makes
  \<^verbatim>\<open>json.MarshalIndent\<close> fail. The result is the error, if any, and the files
  afterwards.
\<close>

definition savePlan ::
  "(string \<Rightarrow> string) \<Rightarrow> string \<Rightarrow> Solution \<Rightarrow> 64 word \<Rightarrow> 64 word \<Rightarrow> files
     \<Rightarrow> plan_error option \<times> files" where
  "savePlan coerce output solution memQuota cpuQuota fs =
     (let plan = \<lparr> Plan.Placement = Solution.Placement solution,
                    MemQuota = memQuota,
                    CpuQuota = cpuQuota,
                    IsLive = isLiveData solution \<rparr>;
          data = enc_Plan coerce plan
      in if writable fs output
         then (None, fs\<lparr>content := (content fs)(output \<mapsto> data)\<rparr>)
         else (Some UnableToSave, fs))"

text \<open>
  \<^verbatim>\<open>ReadPlan\<close>. For the empty file name it returns \<^verbatim>\<open>nil, nil\<close>, which is
  \<open>Inr None\<close>.
\<close>

definition ReadPlan :: "string \<Rightarrow> files \<Rightarrow> plan_error + Plan option" where
  "ReadPlan planFile fs =
     (if planFile \<noteq> []
      then (case content fs planFile of
              None \<Rightarrow> Inl UnableToRead
            | Some buf \<Rightarrow>
                (case dec_Plan buf of
                   None \<Rightarrow> Inl UnableToParse
                 | Some plan \<Rightarrow> Inr (Some plan)))
      else Inr None)"

subsection \<open>What is written of a plan\<close>

text \<open>
  The part of a plan that is written to the file: every exported field, with its
  strings as \<^verbatim>\<open>json.Marshal\<close> writes them, and the zero value in every field that
  is not exported.
\<close>

definition written_IndexDefn :: "(string \<Rightarrow> string) \<Rightarrow> IndexDefn \<Rightarrow> IndexDefn" where
  "written_IndexDefn coerce d =
     d\<lparr> IndexDefn.Name := coerce (IndexDefn.Name d),
        Using := coerce (Using d),
        IndexDefn.Bucket := coerce (IndexDefn.Bucket d),
        BucketUUID := coerce (BucketUUID d),
        IndexDefn.SecExprs := map coerce (IndexDefn.SecExprs d),
        ExprType := coerce (ExprType d),
        PartitionScheme := coerce (PartitionScheme d),
        PartitionKey := coerce (PartitionKey d),
        IndexDefn.WhereExpr := coerce (IndexDefn.WhereExpr d),
        Nodes := map coerce (Nodes d) \<rparr>"

definition written_IndexUsage :: "(string \<Rightarrow> string) \<Rightarrow> IndexUsage \<Rightarrow> IndexUsage" where
  "written_IndexUsage coerce u =
     u\<lparr> IndexUsage.Name := coerce (IndexUsage.Name u),
        IndexUsage.Bucket := coerce (IndexUsage.Bucket u),
        Hosts := map coerce (Hosts u),
        Definition := map_option (written_IndexDefn coerce) (Definition u),
        initialNode := None \<rparr>"

definition written_IndexerNode :: "(string \<Rightarrow> string) \<Rightarrow> IndexerNode \<Rightarrow> IndexerNode" where
  "written_IndexerNode coerce n =
     n\<lparr> NodeId := coerce (NodeId n),
        NodeUUID := coerce (NodeUUID n),
        Indexes := map (written_IndexUsage coerce) (Indexes n),
        delete := False \<rparr>"

definition written_Plan :: "(string \<Rightarrow> string) \<Rightarrow> Plan \<Rightarrow> Plan" where
  "written_Plan coerce p =
     p\<lparr> Plan.Placement := map (written_IndexerNode coerce) (Plan.Placement p) \<rparr>"

text \<open>
  The plan of the solution \<open>solution0\<close>, and files in which nothing exists yet and
  every path can be written.
\<close>

definition plan0 :: Plan where
  "plan0 = \<lparr> Plan.Placement = Solution.Placement solution0, MemQuota = 1024,
             CpuQuota = 4, IsLive = True \<rparr>"

definition files0 :: files where
  "files0 = \<lparr> content = Map.empty, writable = (\<lambda>path. True) \<rparr>"

section \<open>Properties of the equivalence check\<close>

lemma secExprs_inner_iff: "secExprs_inner s ys \<longleftrightarrow> (\<forall>y \<in> set ys. y = s)"
  by (induction ys) auto

lemma secExprs_outer_iff:
  "secExprs_outer xs ys \<longleftrightarrow> (\<forall>x \<in> set xs. \<forall>y \<in> set ys. y = x)"
  by (induction xs) (auto simp: secExprs_inner_iff)

lemma IsEquivalentIndex_refl_iff:
  "IsEquivalentIndex d d \<longleftrightarrow> (\<forall>x \<in> set (IndexDefn.SecExprs d). \<forall>y \<in> set (IndexDefn.SecExprs d). y = x)"
  by (simp add: IsEquivalentIndex_def secExprs_outer_iff)

text \<open>
  Claim C9. The result of \<open>IsEquivalentIndex d1 d2\<close> does not depend on the
  \<open>Using\<close> field of \<open>d2\<close>: the comparison of the source tests \<open>Using d1\<close>
  against itself, so replacing \<open>Using d2\<close> by any value \<open>u\<close> leaves the result
  unchanged.
\<close>

theorem IsEquivalentIndex_ignores_Using_d2:
  "IsEquivalentIndex d1 (d2\<lparr>Using := u\<rparr>) = IsEquivalentIndex d1 d2"
  by (simp add: IsEquivalentIndex_def)

theorem IsEquivalentIndex_ignores_Using_d2_witness:
  "IsEquivalentIndex defn_two_exprs (defn_two_exprs\<lparr>IndexDefn.SecExprs := [''a''], Using := ''forestdb''\<rparr>) =
   IsEquivalentIndex defn_two_exprs (defn_two_exprs\<lparr>IndexDefn.SecExprs := [''a'']\<rparr>)"
  using IsEquivalentIndex_ignores_Using_d2
    [of defn_two_exprs "''forestdb''" "defn_two_exprs\<lparr>IndexDefn.SecExprs := [''a'']\<rparr>"]
  by (simp add: defn_two_exprs_def)

text \<open>
  Claim C10. Reflexivity of \<open>IsEquivalentIndex\<close> is what the claim asks for; the
  source's nested loops compare every expression of \<open>d1\<close> with every expression
  of \<open>d2\<close>, so a definition with the two distinct secondary expressions
  \<open>a\<close> and \<open>b\<close> is not equivalent to itself.
\<close>

theorem IsEquivalentIndex_not_reflexive:
  "IsEquivalentIndex defn_two_exprs defn_two_exprs = False"
  by (simp add: IsEquivalentIndex_def defn_two_exprs_def)

theorem IsEquivalentIndex_not_reflexive_witness:
  "\<not> (\<forall>d. IsEquivalentIndex d d)"
  using IsEquivalentIndex_not_reflexive by auto

section \<open>Properties of the retry wrapper\<close>

lemma Contains_refused: "Contains refused ''connection refused''"
  by (simp add: refused_def)

text \<open>
  Claim C1. The claim asks that a client with \<open>maxRetries = 0\<close> retries for as
  long as the connection is refused. The source multiplies the interval by
  \<open>expBackoff\<close> in machine arithmetic and stops as soon as the interval is not
  positive: with \<open>retryInterval = 4\<close> and \<open>expBackoff = 2 ^ 62\<close> the product wraps
  to 0 after the first sleep, and the second refused call is returned to the
  caller, whatever fuel beyond two iterations the loop is given.
\<close>

theorem withRetry_stops_when_interval_wraps:
  "withRetry (Suc (Suc n)) client_backoff_wraps (\<lambda>k. Some refused) =
     Some \<lparr>returned = Some refused, attempts = 2, sleeps = [4]\<rparr>"
  using Contains_refused by (simp add: withRetry_def client_backoff_wraps_def)

theorem withRetry_stops_when_interval_wraps_witness:
  "withRetry 5 client_backoff_wraps (\<lambda>k. Some refused) \<noteq> None"
  using withRetry_stops_when_interval_wraps [of 3] by (simp add: eval_nat_numeral)

section \<open>Properties of the KV data path\<close>

subsection \<open>The invariant of the routine map\<close>

lemma nth_list_update_if:
  "xs[i := x] ! j = (if i = j \<and> i < length xs then x else xs ! j)"
  by (cases "i < length xs") (auto simp: nth_list_update list_update_beyond)

lemma length_call_all [simp]: "length (store (call_all c k)) = length (store k)"
  by (simp add: call_all_def)

lemma vrs_call_all [simp]: "vrs (call_all c k) = vrs k"
  by (simp add: call_all_def)

lemma nth_call_all:
  "p < length (store k) \<Longrightarrow>
   store (call_all c k) ! p = (if p \<in> ran (vrs k) then vr_called c (store k ! p) else store k ! p)"
  by (simp add: call_all_def nth_enumerate_eq)

lemma vr_vbno_vr_called [simp]: "vr_vbno (vr_called c vr) = vr_vbno vr"
  by (simp add: vr_called_def)

lemma ended_vr_called [simp]: "ended (vr_called c vr) \<longleftrightarrow> ended vr \<or> is_StreamEnd c"
  by (auto simp: vr_called_def ended_def)

lemma kv_inv_call_all:
  assumes "kv_inv k" "\<not> is_StreamEnd c"
  shows "kv_inv (call_all c k)"
proof -
  have st: "\<And>q. q < length (store k) \<Longrightarrow>
      vr_vbno (store (call_all c k) ! q) = vr_vbno (store k ! q) \<and>
      ended (store (call_all c k) ! q) = ended (store k ! q)"
    using assms(2) by (simp add: nth_call_all)
  show ?thesis using assms(1) unfolding kv_inv_def by (simp add: st)
qed

lemma kv_inv_NewKVData: "kv_inv (NewKVData t b a es ps)"
  by (simp add: kv_inv_def NewKVData_def)

lemma kv_inv_post [simp]: "kv_inv (post x k) = kv_inv k"
  by (simp add: kv_inv_def post_def)

lemma kv_inv_call_at:
  assumes "kv_inv k" "\<not> is_StreamEnd c"
  shows "kv_inv (call_at p c k)"
proof -
  have st: "\<And>q. q < length (store k) \<Longrightarrow>
      vr_vbno (store (call_at p c k) ! q) = vr_vbno (store k ! q) \<and>
      ended (store (call_at p c k) ! q) = ended (store k ! q)"
    using assms(2) by (simp add: call_at_def nth_list_update_if)
  have len: "length (store (call_at p c k)) = length (store k)" by (simp add: call_at_def)
  have v: "vrs (call_at p c k) = vrs k" by (simp add: call_at_def)
  show ?thesis using assms(1) unfolding kv_inv_def len v by (simp add: st)
qed

lemma kv_inv_new:
  assumes inv: "kv_inv k" and free: "vrs k vb = None" and vb: "vr_vbno vr = vb"
    and live: "\<not> ended vr"
  shows "kv_inv (k\<lparr>store := store k @ [vr], vrs := (vrs k)(vb \<mapsto> length (store k))\<rparr>)"
proof -
  let ?k = "k\<lparr>store := store k @ [vr], vrs := (vrs k)(vb \<mapsto> length (store k))\<rparr>"
  have a: "p < length (store ?k) \<and> vr_vbno (store ?k ! p) = vb' \<and> \<not> ended (store ?k ! p)"
    if h: "vrs ?k vb' = Some p" for vb' p
  proof (cases "vb' = vb")
    case True
    with h have "p = length (store k)" by simp
    with True vb live show ?thesis by simp
  next
    case False
    with h have "vrs k vb' = Some p" by simp
    with inv have "p < length (store k) \<and> vr_vbno (store k ! p) = vb' \<and> \<not> ended (store k ! p)"
      unfolding kv_inv_def by blast
    then show ?thesis by (simp add: nth_append)
  qed
  have b: "vrs ?k (vr_vbno (store ?k ! p)) = Some p"
    if lt: "p < length (store ?k)" and nl: "\<not> ended (store ?k ! p)" for p
  proof (cases "p < length (store k)")
    case True
    with nl have nl': "\<not> ended (store k ! p)" by (simp add: nth_append)
    with inv True have m: "vrs k (vr_vbno (store k ! p)) = Some p" unfolding kv_inv_def by blast
    with free have "vr_vbno (store k ! p) \<noteq> vb" by auto
    with m True show ?thesis by (simp add: nth_append)
  next
    case False
    with lt have "p = length (store k)" by simp
    then show ?thesis using vb by simp
  qed
  show ?thesis unfolding kv_inv_def using a b by blast
qed

lemma kv_inv_end:
  assumes inv: "kv_inv k" and at: "vrs k vb = Some p" and se: "is_StreamEnd c"
  shows "kv_inv ((call_at p c k)\<lparr>vrs := (vrs k)(vb := None)\<rparr>)"
proof -
  let ?k = "(call_at p c k)\<lparr>vrs := (vrs k)(vb := None)\<rparr>"
  from inv at have p: "p < length (store k)" "vr_vbno (store k ! p) = vb"
    unfolding kv_inv_def by blast+
  have st: "store ?k = (store k)[p := vr_called c (store k ! p)]"
    by (simp add: call_at_def)
  have vr: "vrs ?k = (vrs k)(vb := None)"
    by simp
  have a: "q < length (store ?k) \<and> vr_vbno (store ?k ! q) = vb' \<and> \<not> ended (store ?k ! q)"
    if h: "vrs ?k vb' = Some q" for vb' q
  proof -
    from h have ne: "vb' \<noteq> vb" and q: "vrs k vb' = Some q"
      unfolding vr by (auto split: if_splits)
    from inv q have q': "q < length (store k)" "vr_vbno (store k ! q) = vb'" "\<not> ended (store k ! q)"
      unfolding kv_inv_def by blast+
    from q' p ne have "q \<noteq> p" by auto
    with q' show ?thesis unfolding st by simp
  qed
  have b: "vrs ?k (vr_vbno (store ?k ! q)) = Some q"
    if lt: "q < length (store ?k)" and nl: "\<not> ended (store ?k ! q)" for q
  proof -
    from lt have lt': "q < length (store k)" unfolding st by simp
    have qp: "q \<noteq> p"
    proof
      assume "q = p"
      with nl lt' se show False unfolding st by simp
    qed
    with nl lt' have nl': "\<not> ended (store k ! q)" unfolding st by simp
    with inv lt' have m: "vrs k (vr_vbno (store k ! q)) = Some q" unfolding kv_inv_def by blast
    with at qp have "vr_vbno (store k ! q) \<noteq> vb" by auto
    with m qp show ?thesis unfolding st vr by simp
  qed
  show ?thesis unfolding kv_inv_def using a b by blast
qed

lemma kv_inv_scatterMutation:
  assumes "kv_inv k" "scatterMutation ext k m ts = (k', e)"
  shows "kv_inv k'"
proof (cases "Opcode m")
  case UPR_STREAMREQ
  show ?thesis
  proof (cases "Status m = SUCCESS \<and> vrs k (VBucket m) = None")
    case False
    with assms UPR_STREAMREQ show ?thesis
      by (auto simp: scatterMutation_def Let_def split: if_splits)
  next
    case True
    show ?thesis
    proof (cases "\<exists>a. Latest (FailoverLog m) = Inr (Some a)")
      case False
      with assms UPR_STREAMREQ True show ?thesis
        by (auto simp: scatterMutation_def Let_def split: sum.splits option.splits)
    next
      case Some: True
      then obtain vbuuid sq where a: "Latest (FailoverLog m) = Inr (Some (vbuuid, sq))" by auto
      from assms UPR_STREAMREQ True a
      have k': "k' = post (PostStreamRequest (bucket k) (kvaddr k) (m\<lparr>VBuuid := vbuuid, Seqno := Ts_SeqnoFor ext ts (VBucket m)\<rparr>))
                  (k\<lparr>store := store k @ [vr_called (VrEvent (m\<lparr>VBuuid := vbuuid, Seqno := Ts_SeqnoFor ext ts (VBucket m)\<rparr>))
                         (vr_called (VrAddEngines (engines k) (endpoints k))
                            (NewVbucketRoutine (topic k) (bucket k) (kvaddr k) (VBucket m) vbuuid (Ts_SeqnoFor ext ts (VBucket m))))],
                       vrs := (vrs k)(VBucket m \<mapsto> length (store k))\<rparr>)"
        by (auto simp: scatterMutation_def Let_def)
      have req: "\<not> is_StreamEnd (VrEvent (m\<lparr>VBuuid := vbuuid, Seqno := Ts_SeqnoFor ext ts (VBucket m)\<rparr>))"
        using UPR_STREAMREQ by (simp add: is_StreamEnd_def)
      have live: "\<not> ended (vr_called (VrEvent (m\<lparr>VBuuid := vbuuid, Seqno := Ts_SeqnoFor ext ts (VBucket m)\<rparr>))
                         (vr_called (VrAddEngines (engines k) (endpoints k))
                            (NewVbucketRoutine (topic k) (bucket k) (kvaddr k) (VBucket m) vbuuid (Ts_SeqnoFor ext ts (VBucket m)))))"
        using req by (simp add: is_StreamEnd_def) (simp add: ended_def NewVbucketRoutine_def)
      show ?thesis
        unfolding k' kv_inv_post
        by (rule kv_inv_new [OF assms(1) _ _ live]) (use True in \<open>simp_all add: NewVbucketRoutine_def\<close>)
    qed
  qed
next
  case UPR_STREAMEND
  show ?thesis
  proof (cases "vrs k (VBucket m)")
    case None
    with assms UPR_STREAMEND show ?thesis by (auto simp: scatterMutation_def)
  next
    case (Some p)
    show ?thesis
    proof (cases "Status m = SUCCESS")
      case False
      with assms UPR_STREAMEND Some show ?thesis by (auto simp: scatterMutation_def)
    next
      case True
      from assms UPR_STREAMEND Some True
      have k': "k' = post (PostStreamEnd (bucket k) (kvaddr k) m)
                 ((call_at p (VrEvent m) k)\<lparr>vrs := (vrs k)(VBucket m := None)\<rparr>)"
        by (auto simp: scatterMutation_def Let_def call_at_def)
      have se: "is_StreamEnd (VrEvent m)" using UPR_STREAMEND by (simp add: is_StreamEnd_def)
      show ?thesis
        unfolding k' kv_inv_post by (rule kv_inv_end [OF assms(1) Some se])
    qed
  qed
next
  case UPR_MUTATION
  then have "\<not> is_StreamEnd (VrEvent m)" by (simp add: is_StreamEnd_def)
  with assms UPR_MUTATION show ?thesis
    by (auto simp: scatterMutation_def kv_inv_call_at split: option.splits)
next
  case UPR_DELETION
  then have "\<not> is_StreamEnd (VrEvent m)" by (simp add: is_StreamEnd_def)
  with assms UPR_DELETION show ?thesis
    by (auto simp: scatterMutation_def kv_inv_call_at split: option.splits)
next
  case UPR_SNAPSHOT
  then have "\<not> is_StreamEnd (VrEvent m)" by (simp add: is_StreamEnd_def)
  with assms UPR_SNAPSHOT show ?thesis
    by (auto simp: scatterMutation_def kv_inv_call_at split: option.splits)
next
  case UPR_EXPIRATION
  then have "\<not> is_StreamEnd (VrEvent m)" by (simp add: is_StreamEnd_def)
  with assms UPR_EXPIRATION show ?thesis
    by (auto simp: scatterMutation_def kv_inv_call_at split: option.splits)
next
  case UPR_OTHER
  with assms show ?thesis by (auto simp: scatterMutation_def)
qed

lemma kv_inv_engines_update [simp]: "kv_inv (k\<lparr>engines := e\<rparr>) = kv_inv k"
  by (simp add: kv_inv_def)

lemma kv_inv_endpoints_update [simp]: "kv_inv (k\<lparr>endpoints := e\<rparr>) = kv_inv k"
  by (simp add: kv_inv_def)

lemma kv_send [simp]: "kv (send c r s) = kv s"
  by (simp add: send_def)

lemma is_StreamEnd_simps [simp]:
  "\<not> is_StreamEnd (VrAddEngines e p)"
  "\<not> is_StreamEnd (VrDeleteEngines ks)"
  "\<not> is_StreamEnd VrGetStatistics"
  "is_StreamEnd (VrEvent m) = (Opcode m = UPR_STREAMEND)"
  by (simp_all add: is_StreamEnd_def)

lemma kv_inv_handle_cmd:
  assumes "kv_inv (kv s)" "handle_cmd ext s msg = (s', r)"
  shows "kv_inv (kv s')"
  using assms
  by (auto simp: handle_cmd_def Let_def kv_inv_call_all split: sum.splits if_splits)

lemma kv_inv_scatter_step:
  assumes "kv_inv (kv s)" "scatter_step ext s x = (s', r)"
  shows "kv_inv (kv s')"
proof (cases x)
  case (Mutch ev)
  show ?thesis
  proof (cases ev)
    case None
    with assms Mutch show ?thesis by (simp add: scatter_step_def)
  next
    case (Some m)
    obtain k1 e where sm: "scatterMutation ext (kv s) m (cur_ts s) = (k1, e)"
      by (cases "scatterMutation ext (kv s) m (cur_ts s)")
    from kv_inv_scatterMutation [OF assms(1) sm] have "kv_inv k1" .
    with assms(2) Mutch Some sm show ?thesis
      by (auto simp: scatter_step_def split: option.splits)
  qed
next
  case (Sbch msg)
  with assms show ?thesis by (auto simp: scatter_step_def dest: kv_inv_handle_cmd)
qed

lemma kv_inv_runScatter_loop:
  assumes "kv_inv (kv s)" "runScatter_loop ext s ins = (s', r, n)"
  shows "kv_inv (kv s')"
  using assms
proof (induction ins arbitrary: s s' r n)
  case Nil
  then show ?case by simp
next
  case (Cons x xs)
  obtain s1 r1 where st: "scatter_step ext s x = (s1, r1)" by (cases "scatter_step ext s x")
  from kv_inv_scatter_step [OF Cons.prems(1) st] have i1: "kv_inv (kv s1)" .
  show ?case
  proof (cases r1)
    case (Some a)
    with Cons.prems(2) st i1 show ?thesis by simp
  next
    case None
    obtain s2 r2 n2 where l: "runScatter_loop ext s1 xs = (s2, r2, n2)"
      by (cases "runScatter_loop ext s1 xs")
    from Cons.IH [OF i1 l] have "kv_inv (kv s2)" .
    with Cons.prems(2) st None l show ?thesis by simp
  qed
qed

lemma filter_eq_upt: "filter (\<lambda>p. p = q) [0..<n] = (if q < n then [q] else [])"
  by (induction n) auto

lemma routines_for_inv:
  assumes "kv_inv k"
  shows "routines_for k vb = (case vrs k vb of None \<Rightarrow> [] | Some p \<Rightarrow> [p])"
proof -
  have eq: "filter (\<lambda>p. vr_vbno (store k ! p) = vb \<and> \<not> ended (store k ! p)) [0..<length (store k)]
          = filter (\<lambda>p. vrs k vb = Some p) [0..<length (store k)]"
    using assms unfolding kv_inv_def by (intro filter_cong) auto
  show ?thesis
  proof (cases "vrs k vb")
    case None
    then show ?thesis unfolding routines_for_def eq by simp
  next
    case (Some q)
    with assms have "q < length (store k)" unfolding kv_inv_def by blast
    moreover have "filter (\<lambda>p. vrs k vb = Some p) [0..<length (store k)]
        = filter (\<lambda>p. p = q) [0..<length (store k)]"
      using Some by (intro filter_cong) auto
    ultimately show ?thesis unfolding routines_for_def eq
      using Some by (simp add: filter_eq_upt)
  qed
qed

lemma scatter_step_exit:
  assumes "scatter_step ext s x = (s', Some reason)"
  shows "case reason of
           UpstreamClosed \<Rightarrow> x = Mutch None
         | VbucketsEnded \<Rightarrow> (\<exists>m. x = Mutch (Some m)) \<and> vrs (kv s') = Map.empty
         | CloseCommand \<Rightarrow> (\<exists>msg. x = Sbch msg \<and> as_byte msg 0 = Inr kvCmdClose)
         | Panicked p \<Rightarrow> x \<noteq> Mutch None"
proof (cases x)
  case (Mutch ev)
  show ?thesis
  proof (cases ev)
    case None
    with assms Mutch show ?thesis by (auto simp: scatter_step_def)
  next
    case (Some m)
    with assms Mutch show ?thesis
      by (auto simp: scatter_step_def split: prod.splits option.splits if_splits)
  qed
next
  case (Sbch msg)
  with assms show ?thesis
    by (auto simp: scatter_step_def handle_cmd_def Let_def split: sum.splits if_splits)
qed

lemma scatter_step_continue:
  assumes "scatter_step ext s x = (s', None)"
  shows "x \<noteq> Mutch None \<and> (\<forall>c. x \<noteq> Sbch (Close_cmd c)) \<and>
         (\<forall>m. x = Mutch (Some m) \<longrightarrow> vrs (kv s') \<noteq> Map.empty)"
proof (cases x)
  case (Mutch ev)
  with assms show ?thesis
    by (cases ev) (auto simp: scatter_step_def split: prod.splits option.splits if_splits)
next
  case (Sbch msg)
  with assms show ?thesis
    by (auto simp: scatter_step_def handle_cmd_def Close_cmd_def as_byte_def as_chan_def
        kvCmdAddEngines_def kvCmdDelEngines_def kvCmdTs_def kvCmdGetStats_def kvCmdClose_def)
qed

subsection \<open>Replies to the control commands\<close>

lemma handle_AddEngines_cmd:
  "handle_cmd ext s (AddEngines_cmd engs endps respch) = (s', r) \<Longrightarrow>
     r = None \<and> replies s' = replies s @ [(respch, RNil)]"
  by (auto simp: handle_cmd_def AddEngines_cmd_def as_byte_def as_chan_def
      as_engines_unless_nil_def as_endpoints_unless_nil_def send_def Let_def)

lemma handle_DeleteEngines_cmd:
  "handle_cmd ext s (DeleteEngines_cmd engineKeys respch) = (s', r) \<Longrightarrow>
     r = None \<and> replies s' = replies s @ [(respch, RNil)]"
  by (auto simp: handle_cmd_def DeleteEngines_cmd_def as_byte_def as_chan_def as_keys_def
      send_def Let_def kvCmdAddEngines_def kvCmdDelEngines_def)

lemma handle_GetStatistics_cmd:
  "handle_cmd ext s (GetStatistics_cmd respch) = (s', r) \<Longrightarrow>
     r = None \<and> replies s' = replies s @ [(respch, RStats (vrs (kv s)))]"
  by (auto simp: handle_cmd_def GetStatistics_cmd_def as_byte_def as_chan_def send_def Let_def
      kvCmdAddEngines_def kvCmdDelEngines_def kvCmdTs_def kvCmdGetStats_def)

lemma handle_Close_cmd:
  "handle_cmd ext s (Close_cmd respch) = (s', r) \<Longrightarrow>
     r = Some CloseCommand \<and> replies s' = replies s @ [(respch, RNil)]"
  by (auto simp: handle_cmd_def Close_cmd_def as_byte_def as_chan_def send_def
      kvCmdAddEngines_def kvCmdDelEngines_def kvCmdTs_def kvCmdGetStats_def kvCmdClose_def)

text \<open>
  Claim C2. The claim asks that each of the five commands carries the caller's
  reply channel where the handler reads it, and gets exactly one reply. Four of
  them do (the lemmas above). The command that \<^verbatim>\<open>UpdateTs\<close> builds has two
  elements and no reply channel, and the handler of \<^verbatim>\<open>kvCmdTs\<close> reads \<^verbatim>\<open>msg[2]\<close>:
  after the union of the timestamps the index is out of range, the goroutine
  panics, nothing has been sent on any reply channel, and the loop is left.
\<close>

theorem UpdateTs_cmd_gets_no_reply:
  "handle_cmd ext s (UpdateTs_cmd ts respch) =
     (s\<lparr>cur_ts := Ts_Union ext (cur_ts s) ts\<rparr>, Some (Panicked IndexOutOfRange))"
  by (simp add: handle_cmd_def UpdateTs_cmd_def as_byte_def as_ts_def as_chan_def
      kvCmdAddEngines_def kvCmdDelEngines_def kvCmdTs_def)

theorem UpdateTs_cmd_gets_no_reply_witness:
  "replies (fst (handle_cmd ext0 (scatter_init kv0 ts0) (UpdateTs_cmd [17 \<mapsto> 4] 0))) = [] \<and>
   snd (handle_cmd ext0 (scatter_init kv0 ts0) (UpdateTs_cmd [17 \<mapsto> 4] 0)) =
     Some (Panicked IndexOutOfRange)"
  using UpdateTs_cmd_gets_no_reply [of ext0 "scatter_init kv0 ts0" "[17 \<mapsto> 4]" 0]
  by (simp add: scatter_init_def)

subsection \<open>When the scatter loop is left\<close>

text \<open>
  Claim C3, as stated, fails in both directions. With no routine in the map, one
  mutation for an unknown vbucket ends the loop although the upstream channel
  is still open and no \<^verbatim>\<open>Close\<close> was received; and when the upstream channel is
  closed the loop ends although the routine of vbucket 17 is still in the map.
\<close>

theorem runScatter_loop_leaves_early:
  "snd (runScatter_loop ext0 (scatter_init kv0 ts0) [Mutch (Some (mutation 17))]) =
     (Some VbucketsEnded, 1) \<and>
   snd (runScatter_loop ext0 (scatter_init kv0 ts0)
          [Mutch (Some (streamreq 17)), Mutch None]) = (Some UpstreamClosed, 2) \<and>
   vrs (kv (fst (runScatter_loop ext0 (scatter_init kv0 ts0)
          [Mutch (Some (streamreq 17)), Mutch None]))) 17 = Some 0"
  by (simp add: scatter_init_def scatter_step_def scatterMutation_def mutation_def
      streamreq_def kv0_def NewKVData_def ext0_def Latest_def post_def Let_def)

text \<open>
  Claim C3, amended. The loop is left at the first input that is the closing of
  the upstream channel (whatever the routine map holds), or an upstream event
  after which the routine map is empty (whether or not the upstream channel is
  closed), or a \<^verbatim>\<open>Close\<close> command, or an input whose handling panics; and only
  then. While none of these has happened the loop has consumed every input: if
  the loop is still waiting after the inputs \<open>ins\<close>, then the upstream channel
  was not closed in \<open>ins\<close>, no \<^verbatim>\<open>Close\<close> command is in \<open>ins\<close>, and the map is not
  empty after a last input that is an event.
\<close>

theorem runScatter_loop_exit:
  "runScatter_loop ext s ins = (s', r, n) \<Longrightarrow>
    (case r of
       None \<Rightarrow> n = length ins \<and> Mutch None \<notin> set ins \<and>
               (\<forall>c. Sbch (Close_cmd c) \<notin> set ins) \<and>
               (\<forall>m. ins \<noteq> [] \<and> last ins = Mutch (Some m) \<longrightarrow> vrs (kv s') \<noteq> Map.empty)
     | Some reason \<Rightarrow> 0 < n \<and> n \<le> length ins \<and>
          Mutch None \<notin> set (take (n - 1) ins) \<and>
          (\<forall>c. Sbch (Close_cmd c) \<notin> set (take (n - 1) ins)) \<and>
          (case reason of
             UpstreamClosed \<Rightarrow> ins ! (n - 1) = Mutch None
           | VbucketsEnded \<Rightarrow>
               (\<exists>m. ins ! (n - 1) = Mutch (Some m)) \<and> vrs (kv s') = Map.empty
           | CloseCommand \<Rightarrow>
               (\<exists>msg. ins ! (n - 1) = Sbch msg \<and> as_byte msg 0 = Inr kvCmdClose)
           | Panicked p \<Rightarrow> ins ! (n - 1) \<noteq> Mutch None))"
proof (induction ins arbitrary: s s' r n)
  case Nil
  then show ?case by simp
next
  case (Cons x xs)
  obtain s1 r1 where st: "scatter_step ext s x = (s1, r1)" by (cases "scatter_step ext s x")
  show ?case
  proof (cases r1)
    case (Some reason)
    with Cons.prems st have eq: "s' = s1" "r = Some reason" "n = 1" by simp_all
    from scatter_step_exit [OF st [unfolded Some]] show ?thesis
      unfolding eq by (cases reason) simp_all
  next
    case None
    obtain s2 r2 n2 where l: "runScatter_loop ext s1 xs = (s2, r2, n2)"
      by (cases "runScatter_loop ext s1 xs")
    with Cons.prems st None have eq: "s' = s2" "r = r2" "n = Suc n2" by simp_all
    note c = scatter_step_continue [OF st [unfolded None]]
    note ih = Cons.IH [OF l]
    show ?thesis
    proof (cases r2)
      case None
      with ih c l show ?thesis unfolding eq by (cases xs) auto
    next
      case (Some reason)
      with ih have n2: "0 < n2" by simp
      then obtain j where j: "n2 = Suc j" by (cases n2) auto
      from Some ih c show ?thesis unfolding eq j by (cases reason) auto
    qed
  qed
qed

lemma run_three_events:
  "snd (runScatter_loop ext0 (scatter_init kv0 ts0)
          [Mutch (Some (streamreq 17)), Mutch (Some (mutation 17)),
           Mutch (Some (streamend 17)), Mutch (Some (mutation 17))]) = (Some VbucketsEnded, 3)"
  by (simp add: scatter_init_def scatter_step_def scatterMutation_def mutation_def
      streamreq_def streamend_def kv0_def NewKVData_def ext0_def Latest_def post_def call_at_def Let_def)

theorem runScatter_loop_exit_witness:
  "vrs (kv (fst (runScatter_loop ext0 (scatter_init kv0 ts0)
          [Mutch (Some (streamreq 17)), Mutch (Some (mutation 17)),
           Mutch (Some (streamend 17)), Mutch (Some (mutation 17))]))) = Map.empty \<and>
   snd (runScatter_loop ext0 (scatter_init kv0 ts0)
          [Mutch (Some (streamreq 17)), Mutch (Some (mutation 17)),
           Mutch (Some (streamend 17)), Mutch (Some (mutation 17))]) = (Some VbucketsEnded, 3)"
proof -
  let ?ins = "[Mutch (Some (streamreq 17)), Mutch (Some (mutation 17)),
               Mutch (Some (streamend 17)), Mutch (Some (mutation 17))]"
  let ?run = "runScatter_loop ext0 (scatter_init kv0 ts0) ?ins"
  have run: "?run = (fst ?run, Some VbucketsEnded, 3)"
    using run_three_events by (cases ?run) simp
  from runScatter_loop_exit [OF run] have "vrs (kv (fst ?run)) = Map.empty" by simp
  with run_three_events show ?thesis by simp
qed

subsection \<open>One routine for each vbucket\<close>

lemma dup_StreamRequest:
  assumes "Opcode m = UPR_STREAMREQ" "Status m = SUCCESS" "vrs kvdata (VBucket m) \<noteq> None"
  shows "scatterMutation ext kvdata m ts =
           (post (PostStreamRequest (bucket kvdata) (kvaddr kvdata) m) kvdata, None)"
  using assms by (simp add: scatterMutation_def)

lemma ok_StreamEnd:
  assumes "Opcode m = UPR_STREAMEND" "Status m = SUCCESS" "vrs kvdata (VBucket m) = Some p"
  shows "scatterMutation ext kvdata m ts =
           (post (PostStreamEnd (bucket kvdata) (kvaddr kvdata) m)
              ((call_at p (VrEvent m) kvdata)\<lparr>vrs := (vrs kvdata)(VBucket m := None)\<rparr>), None)"
  using assms by (simp add: scatterMutation_def call_at_def)

text \<open>
  Claim C4. Whatever events and commands the loop of a new data path has
  received, a vbucket has at most one routine that has not ended, and it is the
  one the map holds for the vbucket (none when the map has no entry). A
  successful stream request for a vbucket that is in the map leaves the map and
  the heap of routines as they are, so no routine is created or replaced; a
  successful stream end for a vbucket that is in the map removes the entry and
  creates no routine.
\<close>

theorem one_routine_per_vbucket:
  "(runScatter_loop ext (scatter_init (NewKVData t b a engs endps) ts) ins = (s', r, n) \<longrightarrow>
      length (routines_for (kv s') vb) \<le> 1 \<and>
      routines_for (kv s') vb = (case vrs (kv s') vb of None \<Rightarrow> [] | Some p \<Rightarrow> [p])) \<and>
   (Opcode m = UPR_STREAMREQ \<and> Status m = SUCCESS \<and> vrs kvdata (VBucket m) \<noteq> None \<longrightarrow>
      snd (scatterMutation ext kvdata m ts') = None \<and>
      vrs (fst (scatterMutation ext kvdata m ts')) = vrs kvdata \<and>
      store (fst (scatterMutation ext kvdata m ts')) = store kvdata) \<and>
   (Opcode m = UPR_STREAMEND \<and> Status m = SUCCESS \<and> vrs kvdata (VBucket m) \<noteq> None \<longrightarrow>
      snd (scatterMutation ext kvdata m ts') = None \<and>
      vrs (fst (scatterMutation ext kvdata m ts')) = (vrs kvdata)(VBucket m := None) \<and>
      length (store (fst (scatterMutation ext kvdata m ts'))) = length (store kvdata))"
proof (intro conjI impI)
  assume run: "runScatter_loop ext (scatter_init (NewKVData t b a engs endps) ts) ins = (s', r, n)"
  have "kv_inv (kv (scatter_init (NewKVData t b a engs endps) ts))"
    by (simp add: scatter_init_def kv_inv_NewKVData)
  from kv_inv_runScatter_loop [OF this run] have inv: "kv_inv (kv s')" .
  show eq: "routines_for (kv s') vb = (case vrs (kv s') vb of None \<Rightarrow> [] | Some p \<Rightarrow> [p])"
    by (rule routines_for_inv [OF inv])
  show "length (routines_for (kv s') vb) \<le> 1"
    unfolding eq by (simp split: option.split)
next
  assume h: "Opcode m = UPR_STREAMREQ \<and> Status m = SUCCESS \<and> vrs kvdata (VBucket m) \<noteq> None"
  then have eq: "scatterMutation ext kvdata m ts' =
      (post (PostStreamRequest (bucket kvdata) (kvaddr kvdata) m) kvdata, None)"
    by (intro dup_StreamRequest) simp_all
  show "snd (scatterMutation ext kvdata m ts') = None"
    and "vrs (fst (scatterMutation ext kvdata m ts')) = vrs kvdata"
    and "store (fst (scatterMutation ext kvdata m ts')) = store kvdata"
    unfolding eq by (simp_all add: post_def)
next
  assume h: "Opcode m = UPR_STREAMEND \<and> Status m = SUCCESS \<and> vrs kvdata (VBucket m) \<noteq> None"
  then obtain p where p: "vrs kvdata (VBucket m) = Some p" by auto
  from h have eq: "scatterMutation ext kvdata m ts' =
      (post (PostStreamEnd (bucket kvdata) (kvaddr kvdata) m)
         ((call_at p (VrEvent m) kvdata)\<lparr>vrs := (vrs kvdata)(VBucket m := None)\<rparr>), None)"
    by (intro ok_StreamEnd p) simp_all
  show "snd (scatterMutation ext kvdata m ts') = None"
    and "vrs (fst (scatterMutation ext kvdata m ts')) = (vrs kvdata)(VBucket m := None)"
    and "length (store (fst (scatterMutation ext kvdata m ts'))) = length (store kvdata)"
    unfolding eq by (simp_all add: post_def call_at_def)
qed

lemma run_dup_request:
  "kv (fst (runScatter_loop ext0 (scatter_init kv0 ts0)
         [Mutch (Some (streamreq 17)), Mutch (Some (streamreq 17))])) =
   kv0\<lparr>store := [\<lparr> vr_topic = ''T'', vr_bucket = ''default'', vr_kvaddr = ''kv1:11210'',
                    vr_vbno = 17, vr_vbuuid = 42, vr_seqno = 3,
                    vr_calls = [VrAddEngines [7 \<mapsto> 1] [''ep1:9100'' \<mapsto> 2],
                                VrEvent ((streamreq 17)\<lparr>VBuuid := 42, Seqno := 3\<rparr>)] \<rparr>],
        vrs := [17 \<mapsto> 0],
        posted := [PostStreamRequest ''default'' ''kv1:11210''
                     ((streamreq 17)\<lparr>VBuuid := 42, Seqno := 3\<rparr>),
                   PostStreamRequest ''default'' ''kv1:11210'' (streamreq 17)]\<rparr>"
  by (simp add: scatter_init_def scatter_step_def scatterMutation_def streamreq_def kv0_def
      NewKVData_def ext0_def Latest_def ts0_def post_def Let_def NewVbucketRoutine_def vr_called_def)

theorem one_routine_per_vbucket_witness:
  "routines_for (kv (fst (runScatter_loop ext0 (scatter_init kv0 ts0)
         [Mutch (Some (streamreq 17)), Mutch (Some (streamreq 17))]))) 17 = [0] \<and>
   vrs (fst (scatterMutation ext0
         (kv (fst (runScatter_loop ext0 (scatter_init kv0 ts0) [Mutch (Some (streamreq 17))])))
         (streamend 17) ts0)) = Map.empty"
proof -
  let ?ins = "[Mutch (Some (streamreq 17)), Mutch (Some (streamreq 17))]"
  let ?run = "runScatter_loop ext0 (scatter_init kv0 ts0) ?ins"
  let ?k1 = "kv (fst (runScatter_loop ext0 (scatter_init kv0 ts0) [Mutch (Some (streamreq 17))]))"
  have k1: "vrs ?k1 = [17 \<mapsto> 0]"
    by (simp add: scatter_init_def scatter_step_def scatterMutation_def streamreq_def kv0_def
        NewKVData_def ext0_def Latest_def ts0_def post_def Let_def)
  have run: "runScatter_loop ext0 (scatter_init (NewKVData ''T'' ''default'' ''kv1:11210''
                [7 \<mapsto> 1] [''ep1:9100'' \<mapsto> 2]) ts0) ?ins = (fst ?run, fst (snd ?run), snd (snd ?run))"
    by (simp add: kv0_def)
  have se: "Opcode (streamend 17) = UPR_STREAMEND \<and> Status (streamend 17) = SUCCESS \<and>
            vrs ?k1 (VBucket (streamend 17)) \<noteq> None"
    unfolding k1 by (simp add: streamend_def)
  note inst = one_routine_per_vbucket [of ext0 "''T''" "''default''" "''kv1:11210''"
      "[7 \<mapsto> 1]" "[''ep1:9100'' \<mapsto> 2]" ts0 ?ins "fst ?run" "fst (snd ?run)" "snd (snd ?run)" 17
      "streamend 17" ?k1 ts0]
  from inst run have "routines_for (kv (fst ?run)) 17 =
      (case vrs (kv (fst ?run)) 17 of None \<Rightarrow> [] | Some p \<Rightarrow> [p])"
    by blast
  then have a: "routines_for (kv (fst ?run)) 17 = [0]"
    unfolding run_dup_request by simp
  from inst se have "vrs (fst (scatterMutation ext0 ?k1 (streamend 17) ts0)) =
      (vrs ?k1)(VBucket (streamend 17) := None)"
    by blast
  then have b: "vrs (fst (scatterMutation ext0 ?k1 (streamend 17) ts0)) = Map.empty"
    unfolding k1 by (simp add: streamend_def)
  from a b show ?thesis by simp
qed

subsection \<open>A stream request for a new vbucket\<close>

text \<open>
  What \<open>Latest\<close> gives: the entry added last to the history, an error for the
  nil pointer and a panic for the empty log. In the last two cases a stream
  request for a new vbucket ends in a panic and leaves the data path as it was:
  no routine is created and the feed is not told.
\<close>

lemma Latest_appended: "Latest (Some (flog @ [e])) = Inr (Some e)"
  by (simp add: Latest_def)

lemma Latest_without_entry:
  "Latest None = Inr None" "Latest (Some []) = Inl IndexOutOfRange"
  by (simp_all add: Latest_def)

lemma StreamRequest_without_log_entry:
  assumes "Opcode m = UPR_STREAMREQ" and "Status m = SUCCESS"
    and "vrs kvdata (VBucket m) = None"
  shows "FailoverLog m = None \<Longrightarrow>
           scatterMutation ext kvdata m ts = (kvdata, Some FailoverLogError)"
    and "FailoverLog m = Some [] \<Longrightarrow>
           scatterMutation ext kvdata m ts = (kvdata, Some IndexOutOfRange)"
  using assms by (simp_all add: scatterMutation_def Latest_def)

text \<open>
  Claim C5. A stream request with status \<open>SUCCESS\<close> for a vbucket that has no
  routine in the map, whose failover log \<open>flog\<close> has an entry, creates one
  routine: for the topic, bucket and node of the data path and the vbucket of
  the event, with the VBUUID of the newest entry of the log, which is its last
  one, and with the sequence number the current timestamp has for the vbucket.
  The routine is given the engines and endpoints registered with the data
  path, then the event (which carries that VBUUID and sequence number), and
  the map holds it under the vbucket number. Nothing else in the map or the
  heap changes, and the feed is told of the request.
\<close>

theorem StreamRequest_creates_routine:
  assumes "Opcode m = UPR_STREAMREQ" and "Status m = SUCCESS"
    and "vrs kvdata (VBucket m) = None"
    and "FailoverLog m = Some flog" and "flog \<noteq> []"
  shows "\<exists>kvdata'.
     scatterMutation ext kvdata m ts = (kvdata', None) \<and>
     store kvdata' = store kvdata @
       [\<lparr> vr_topic = topic kvdata, vr_bucket = bucket kvdata, vr_kvaddr = kvaddr kvdata,
          vr_vbno = VBucket m, vr_vbuuid = fst (last flog),
          vr_seqno = Ts_SeqnoFor ext ts (VBucket m),
          vr_calls = [VrAddEngines (engines kvdata) (endpoints kvdata),
                      VrEvent (m\<lparr>VBuuid := fst (last flog),
                                  Seqno := Ts_SeqnoFor ext ts (VBucket m)\<rparr>)] \<rparr>] \<and>
     vrs kvdata' = (vrs kvdata)(VBucket m \<mapsto> length (store kvdata)) \<and>
     engines kvdata' = engines kvdata \<and> endpoints kvdata' = endpoints kvdata \<and>
     posted kvdata' = posted kvdata @
       [PostStreamRequest (bucket kvdata) (kvaddr kvdata)
          (m\<lparr>VBuuid := fst (last flog), Seqno := Ts_SeqnoFor ext ts (VBucket m)\<rparr>)]"
  using assms
  by (simp add: scatterMutation_def Latest_def Let_def post_def NewVbucketRoutine_def
      vr_called_def split: prod.split)

text \<open>
  The request of vbucket 17 carries the log \<open>[(99, 5), (42, 0)]\<close>: the routine is
  created with the VBUUID 42 of the last entry and the sequence number 3 of the
  timestamp.
\<close>

theorem StreamRequest_creates_routine_witness:
  "\<exists>kvdata'.
     scatterMutation ext0 kv0 (streamreq 17) ts0 = (kvdata', None) \<and>
     store kvdata' =
       [\<lparr> vr_topic = ''T'', vr_bucket = ''default'', vr_kvaddr = ''kv1:11210'',
          vr_vbno = 17, vr_vbuuid = 42, vr_seqno = 3,
          vr_calls = [VrAddEngines [7 \<mapsto> 1] [''ep1:9100'' \<mapsto> 2],
                      VrEvent ((streamreq 17)\<lparr>VBuuid := 42, Seqno := 3\<rparr>)] \<rparr>] \<and>
     vrs kvdata' = [17 \<mapsto> 0]"
proof -
  let ?flog = "[(99, 5), (42, 0)] :: (64 word \<times> 64 word) list"
  have h: "Opcode (streamreq 17) = UPR_STREAMREQ" "Status (streamreq 17) = SUCCESS"
    "vrs kv0 (VBucket (streamreq 17)) = None"
    "FailoverLog (streamreq 17) = Some ?flog" "?flog \<noteq> []"
    by (simp_all add: streamreq_def kv0_def NewKVData_def)
  from StreamRequest_creates_routine [OF h, of ext0 ts0] obtain kvdata' where
    "scatterMutation ext0 kv0 (streamreq 17) ts0 = (kvdata', None)"
    "store kvdata' = store kv0 @
       [\<lparr> vr_topic = topic kv0, vr_bucket = bucket kv0, vr_kvaddr = kvaddr kv0,
          vr_vbno = VBucket (streamreq 17), vr_vbuuid = fst (last ?flog),
          vr_seqno = Ts_SeqnoFor ext0 ts0 (VBucket (streamreq 17)),
          vr_calls = [VrAddEngines (engines kv0) (endpoints kv0),
                      VrEvent ((streamreq 17)\<lparr>VBuuid := fst (last ?flog),
                         Seqno := Ts_SeqnoFor ext0 ts0 (VBucket (streamreq 17))\<rparr>)] \<rparr>]"
    "vrs kvdata' = (vrs kv0)(VBucket (streamreq 17) \<mapsto> length (store kv0))"
    by blast
  then show ?thesis
    by (intro exI [of _ kvdata']) (simp add: streamreq_def kv0_def NewKVData_def ext0_def Latest_def ts0_def)
qed
section \<open>Properties of the planner\<close>

subsection \<open>Transfer tokens\<close>

lemma ttid_eq: "inj u \<Longrightarrow> ttid u a = ttid u b \<longleftrightarrow> a = b"
  by (auto simp: ttid_def dest: injD)

lemma add_tokens_append:
  "add_tokens m r u (xs @ ys) acc = add_tokens m r u ys (add_tokens m r u xs acc)"
proof (induction xs arbitrary: acc)
  case Nil
  show ?case by simp
next
  case (Cons x xs)
  obtain t k where acc: "acc = (t, k)" by (cases acc)
  show ?case unfolding acc by (simp add: Cons.IH)
qed

lemma snd_add_tokens: "snd (add_tokens m r u xs (t, k)) = k + length xs"
  by (induction xs arbitrary: t k) simp_all

lemma add_tokens_other:
  "(\<And>j. j < length xs \<Longrightarrow> key \<noteq> ttid u (k + j)) \<Longrightarrow>
   fst (add_tokens m r u xs (t, k)) key = t key"
proof (induction xs arbitrary: t k)
  case Nil
  show ?case by simp
next
  case (Cons x xs)
  have "key \<noteq> ttid u (k + 0)" by (rule Cons.prems) simp
  then have ne: "key \<noteq> ttid u k" by simp
  have later: "key \<noteq> ttid u (Suc k + j)" if "j < length xs" for j
    using Cons.prems [of "Suc j"] that by simp
  have "fst (add_tokens m r u xs (t(ttid u k \<mapsto> token_of m r x), Suc k)) key =
        (t(ttid u k \<mapsto> token_of m r x)) key"
    by (rule Cons.IH) (rule later)
  with ne show ?case by simp
qed

lemma add_tokens_nth:
  "inj u \<Longrightarrow> j < length xs \<Longrightarrow>
   fst (add_tokens m r u xs (t, k)) (ttid u (k + j)) = Some (token_of m r (xs ! j))"
proof (induction xs arbitrary: t k j)
  case Nil
  then show ?case by simp
next
  case (Cons x xs)
  show ?case
  proof (cases j)
    case 0
    have "fst (add_tokens m r u xs (t(ttid u k \<mapsto> token_of m r x), Suc k))
            (ttid u k) =
          (t(ttid u k \<mapsto> token_of m r x)) (ttid u k)"
    proof (rule add_tokens_other)
      fix i assume "i < length xs"
      show "ttid u k \<noteq> ttid u (Suc k + i)" using Cons.prems(1) by (simp add: ttid_eq)
    qed
    with 0 show ?thesis by simp
  next
    case (Suc j')
    with Cons.prems have "j' < length xs" by simp
    then have ih: "fst (add_tokens m r u xs (t(ttid u k \<mapsto> token_of m r x), Suc k))
                     (ttid u (Suc k + j')) = Some (token_of m r (xs ! j'))"
      by (rule Cons.IH [OF Cons.prems(1)])
    have "fst (add_tokens m r u (x # xs) (t, k)) (ttid u (k + j)) =
          fst (add_tokens m r u xs (t(ttid u k \<mapsto> token_of m r x), Suc k))
            (ttid u (Suc k + j'))"
      using Suc by simp
    also note ih
    also have "Some (token_of m r (xs ! j')) = Some (token_of m r ((x # xs) ! j))"
      using Suc by simp
    finally show ?thesis .
  qed
qed

lemma dom_add_tokens:
  "dom (fst (add_tokens m r u xs (t, k))) =
     dom t \<union> ttid u ` {k..<k + length xs}"
proof (induction xs arbitrary: t k)
  case Nil
  show ?case by simp
next
  case (Cons x xs)
  have set: "{k..<k + length (x # xs)} = insert k {Suc k..<Suc k + length xs}" by auto
  have "dom (fst (add_tokens m r u (x # xs) (t, k))) =
        dom (fst (add_tokens m r u xs (t(ttid u k \<mapsto> token_of m r x), Suc k)))"
    by simp
  also have "\<dots> = dom (t(ttid u k \<mapsto> token_of m r x)) \<union> ttid u ` {Suc k..<Suc k + length xs}"
    by (rule Cons.IH)
  also have "\<dots> = dom t \<union> ttid u ` {k..<k + length (x # xs)}"
    unfolding set by simp
  finally show ?case .
qed

lemma genTransferToken_indexes_eq:
  assumes "\<forall>index \<in> set ixs. initialNode index \<noteq> None \<and>
             (has_moved indexer index \<longrightarrow> Definition index \<noteq> None)"
  shows "genTransferToken_indexes m r u indexer ixs acc =
           Inr (add_tokens m r u (map (Pair indexer) (filter (has_moved indexer) ixs)) acc)"
  using assms
proof (induction ixs arbitrary: acc)
  case Nil
  show ?case by simp
next
  case (Cons index rest)
  obtain t k where acc: "acc = (t, k)" by (cases acc)
  from Cons.prems obtain ini where ini: "initialNode index = Some ini" by auto
  have rest: "\<forall>index \<in> set rest. initialNode index \<noteq> None \<and>
             (has_moved indexer index \<longrightarrow> Definition index \<noteq> None)"
    using Cons.prems by simp
  show ?case
  proof (cases "has_moved indexer index")
    case True
    with Cons.prems obtain defn where defn: "Definition index = Some defn" by auto
    from True ini have ne: "ref_NodeId ini \<noteq> NodeId indexer" by (simp add: has_moved_def)
    have tok: "new_token m r indexer index ini defn = token_of m r (indexer, index)"
      by (simp add: new_token_def token_of_def ini defn)
    show ?thesis
      unfolding acc using True ne by (simp add: ini defn tok Cons.IH [OF rest])
  next
    case False
    with ini have eq: "ref_NodeId ini = NodeId indexer" by (simp add: has_moved_def)
    show ?thesis
      unfolding acc using False eq by (simp add: ini Cons.IH [OF rest])
  qed
qed

lemma genTransferToken_indexers_eq:
  assumes "\<forall>indexer \<in> set nodes. \<forall>index \<in> set (Indexes indexer).
             initialNode index \<noteq> None \<and> (has_moved indexer index \<longrightarrow> Definition index \<noteq> None)"
  shows "genTransferToken_indexers m r u nodes acc =
           Inr (add_tokens m r u (concat (map moved_of nodes)) acc)"
  using assms
proof (induction nodes arbitrary: acc)
  case Nil
  show ?case by simp
next
  case (Cons indexer rest)
  have here: "\<forall>index \<in> set (Indexes indexer). initialNode index \<noteq> None \<and>
             (has_moved indexer index \<longrightarrow> Definition index \<noteq> None)"
    using Cons.prems by simp
  have rest: "\<forall>indexer \<in> set rest. \<forall>index \<in> set (Indexes indexer).
             initialNode index \<noteq> None \<and> (has_moved indexer index \<longrightarrow> Definition index \<noteq> None)"
    using Cons.prems by simp
  show ?case
    by (simp add: genTransferToken_indexes_eq [OF here] Cons.IH [OF rest] add_tokens_append
        moved_of_def)
qed

text \<open>
  Claim C6. Let every index of the solution have an initial node, and every
  index whose node changed a definition (the rebalance that calls
  \<open>genTransferToken\<close> builds its solution from the index layout of the cluster,
  which sets both), and let the generated UUIDs be pairwise different. Then
  \<open>genTransferToken\<close> returns a map with exactly one token for each index whose
  indexer has a \<^verbatim>\<open>NodeId\<close> other than that of its initial node, and with no
  other token: the keys are the identifiers of the first UUIDs, as many as there
  are such indexes, and the token of the \<open>j\<close>-th of them has the state
  \<^verbatim>\<open>TransferTokenCreated\<close>, the UUID of the initial node as source, the UUID of
  the hosting node as destination, the given master and rebalance identifiers,
  and the instance identifier and definition of the index.
\<close>

theorem genTransferToken_one_token_per_moved_index:
  assumes "\<forall>indexer \<in> set (Solution.Placement solution). \<forall>index \<in> set (Indexes indexer).
             initialNode index \<noteq> None \<and> (has_moved indexer index \<longrightarrow> Definition index \<noteq> None)"
    and "inj uuids"
  shows "\<exists>tokens.
     genTransferToken solution masterId rebalId uuids = Ok tokens \<and>
     card (dom tokens) = length (moved_indexes solution) \<and>
     dom tokens = ttid uuids ` {..<length (moved_indexes solution)} \<and>
     (\<forall>j < length (moved_indexes solution).
        case moved_indexes solution ! j of (indexer, index) \<Rightarrow>
          has_moved indexer index \<and>
          tokens (ttid uuids j) =
            Some \<lparr> MasterId = masterId,
                   SourceId = ref_NodeUUID (the (initialNode index)),
                   DestId = NodeUUID indexer,
                   RebalId = rebalId,
                   State = ''TransferTokenCreated'',
                   InstId = IndexUsage.InstId index,
                   IndexDefn = the (Definition index) \<rparr>)"
proof -
  let ?ms = "moved_indexes solution"
  let ?res = "add_tokens masterId rebalId uuids ?ms (Map.empty, 0)"
  let ?tokens = "fst ?res"
  let ?ttid = "ttid uuids"
  have run: "genTransferToken_indexers masterId rebalId uuids (Solution.Placement solution) (Map.empty, 0)
               = Inr ?res"
    unfolding moved_indexes_def by (rule genTransferToken_indexers_eq [OF assms(1)])
  have ok: "genTransferToken solution masterId rebalId uuids = Ok ?tokens"
    unfolding genTransferToken_def run by (simp add: case_prod_beta)
  have dom: "dom ?tokens = ?ttid ` {..<length ?ms}"
    using dom_add_tokens [of masterId rebalId uuids ?ms Map.empty 0]
    by (simp add: atLeast0LessThan)
  have inj: "inj_on ?ttid {..<length ?ms}"
    using assms(2) by (simp add: inj_on_def ttid_eq)
  have card: "card (dom ?tokens) = length ?ms"
    unfolding dom by (simp add: card_image [OF inj])
  have nth: "?tokens (?ttid j) = Some (token_of masterId rebalId (?ms ! j))" if "j < length ?ms" for j
    using add_tokens_nth [OF assms(2) that, of masterId rebalId Map.empty 0] by simp
  have mv: "has_moved (fst x) (snd x)" if "x \<in> set ?ms" for x
    using that by (auto simp: moved_indexes_def moved_of_def)
  show ?thesis
  proof (intro exI [of _ ?tokens] conjI allI impI)
    show "genTransferToken solution masterId rebalId uuids = Ok ?tokens" by (rule ok)
    show "card (dom ?tokens) = length ?ms" by (rule card)
    show "dom ?tokens = ?ttid ` {..<length ?ms}" by (rule dom)
    fix j assume j: "j < length ?ms"
    obtain indexer index where x: "?ms ! j = (indexer, index)" by (cases "?ms ! j")
    from j have "?ms ! j \<in> set ?ms" by simp
    from mv [OF this] x have m: "has_moved indexer index" by simp
    from nth [OF j] x m
    show "case ?ms ! j of (indexer, index) \<Rightarrow>
          has_moved indexer index \<and>
          ?tokens (?ttid j) =
            Some \<lparr> MasterId = masterId,
                   SourceId = ref_NodeUUID (the (initialNode index)),
                   DestId = NodeUUID indexer,
                   RebalId = rebalId,
                   State = ''TransferTokenCreated'',
                   InstId = IndexUsage.InstId index,
                   IndexDefn = the (Definition index) \<rparr>"
      by (simp add: token_of_def)
  qed
qed


lemma inj_uuids0: "inj uuids0"
proof (rule injI)
  fix a b assume "uuids0 a = uuids0 b"
  then have "length (uuids0 a) = length (uuids0 b)" by simp
  then show "a = b" by (simp add: uuids0_def)
qed

lemma moved_indexes_solution0:
  "moved_indexes solution0 =
     [(node2, usage_on 1 \<lparr>ref_NodeId = ''n1'', ref_NodeUUID = ''uuid-n1''\<rparr>)]"
  by (simp add: moved_indexes_def moved_of_def solution0_def node1_def has_moved_def
      usage_on_def)
    (simp add: node2_def has_moved_def usage_on_def)

theorem genTransferToken_one_token_per_moved_index_witness:
  "\<exists>tokens.
     genTransferToken solution0 ''master'' ''rebalance-1'' uuids0 = Ok tokens \<and>
     dom tokens = {ttid uuids0 0} \<and>
     tokens (ttid uuids0 0) =
       Some \<lparr> MasterId = ''master'', SourceId = ''uuid-n1'', DestId = ''uuid-n2'',
              RebalId = ''rebalance-1'', State = ''TransferTokenCreated'', InstId = 1,
              IndexDefn = defn_two_exprs \<rparr>"
proof -
  have h: "\<forall>indexer \<in> set (Solution.Placement solution0). \<forall>index \<in> set (Indexes indexer).
             initialNode index \<noteq> None \<and>
             (has_moved indexer index \<longrightarrow> Definition index \<noteq> None)"
    by (simp add: solution0_def node1_def node2_def usage_on_def)
  from genTransferToken_one_token_per_moved_index [OF h inj_uuids0, of "''master''"
      "''rebalance-1''", unfolded moved_indexes_solution0]
  obtain tokens where
    ok: "genTransferToken solution0 ''master'' ''rebalance-1'' uuids0 = Ok tokens"
    and dom: "dom tokens = ttid uuids0 ` {..<length
        [(node2, usage_on 1 \<lparr>ref_NodeId = ''n1'', ref_NodeUUID = ''uuid-n1''\<rparr>)]}"
    and tok: "\<forall>j < length
        [(node2, usage_on 1 \<lparr>ref_NodeId = ''n1'', ref_NodeUUID = ''uuid-n1''\<rparr>)].
        case [(node2, usage_on 1 \<lparr>ref_NodeId = ''n1'', ref_NodeUUID = ''uuid-n1''\<rparr>)] ! j of
          (indexer, index) \<Rightarrow>
            has_moved indexer index \<and>
            tokens (ttid uuids0 j) =
              Some \<lparr> MasterId = ''master'',
                     SourceId = ref_NodeUUID (the (initialNode index)),
                     DestId = NodeUUID indexer,
                     RebalId = ''rebalance-1'',
                     State = ''TransferTokenCreated'',
                     InstId = IndexUsage.InstId index,
                     IndexDefn = the (Definition index) \<rparr>"
    by blast
  from dom have d: "dom tokens = {ttid uuids0 0}" by (simp add: lessThan_Suc)
  from tok [rule_format, of 0] have t: "tokens (ttid uuids0 0) =
       Some \<lparr> MasterId = ''master'', SourceId = ''uuid-n1'', DestId = ''uuid-n2'',
              RebalId = ''rebalance-1'', State = ''TransferTokenCreated'', InstId = 1,
              IndexDefn = defn_two_exprs \<rparr>"
    by (simp add: node2_def usage_on_def)
  from ok d t show ?thesis by blast
qed

subsection \<open>Index usages from a specification\<close>

declare indexUsageFromSpec_loop.simps [simp del]

lemma sint_small:
  fixes w :: "64 word"
  assumes "unat w < 2 ^ 63"
  shows "sint w = int (unat w)"
proof -
  from assms have "int (unat w) < int (2 ^ 63)" by (simp only: of_nat_less_iff)
  then have u: "uint w < 2 ^ 63" by simp
  have l: "- (2 ^ 63) \<le> uint w"
    by (rule order_trans [of _ 0]) simp_all
  have "signed_take_bit 63 (uint w) = uint w"
    using l u by (rule signed_take_bit_int_eq_self)
  moreover have "sint w = signed_take_bit 63 (uint w)"
    using sint_uint [of w] by simp
  ultimately show ?thesis by simp
qed

lemma decimal_digit: "n < 10 \<Longrightarrow> decimal n = [''0123456789'' ! n]"
  by (subst decimal.simps) simp

lemma length_loop [simp]:
  "length (indexUsageFromSpec_loop sizing uuid spec i result) = length result"
proof (induction sizing uuid spec i result rule: indexUsageFromSpec_loop.induct)
  case (1 sizing uuid spec i result)
  show ?case
    by (subst indexUsageFromSpec_loop.simps) (simp add: 1)
qed

lemma nth_loop:
  "j < length result \<Longrightarrow>
   indexUsageFromSpec_loop sizing uuid spec i result ! j =
     (if i \<le> j \<and> int j < sint (Replica spec) then Some (sizing (replica_usage uuid spec j))
      else result ! j)"
proof (induction sizing uuid spec i result rule: indexUsageFromSpec_loop.induct)
  case (1 sizing uuid spec i result)
  show ?case
  proof (cases "int i < sint (Replica spec)")
    case True
    have "indexUsageFromSpec_loop sizing uuid spec i result ! j =
          indexUsageFromSpec_loop sizing uuid spec (Suc i)
            (result[i := Some (sizing (replica_usage uuid spec i))]) ! j"
      using True by (subst indexUsageFromSpec_loop.simps) simp
    also have "\<dots> = (if Suc i \<le> j \<and> int j < sint (Replica spec)
                      then Some (sizing (replica_usage uuid spec j))
                      else result[i := Some (sizing (replica_usage uuid spec i))] ! j)"
      using "1.IH" [OF True] "1.prems" by simp
    also have "\<dots> = (if i \<le> j \<and> int j < sint (Replica spec)
                      then Some (sizing (replica_usage uuid spec j)) else result ! j)"
      using True "1.prems" by (cases "i = j") (auto simp: nth_list_update)
    finally show ?thesis .
  next
    case False
    then show ?thesis
      by (subst indexUsageFromSpec_loop.simps) auto
  qed
qed


text \<open>
  Claim C7. For a specification with \<^verbatim>\<open>Replica\<close> = \<open>n\<close> (a length that \<^verbatim>\<open>make\<close>
  accepts) and a UUID that was generated, \<open>indexUsageFromSpec\<close> returns exactly
  \<open>n\<close> index usages. Each is what the sizing method made of an index usage
  that has the definition identifier of the one UUID, the instance identifier
  \<open>i\<close>, and the name of the specification for \<open>i = 0\<close>, followed by an
  underscore and the decimal digits of \<open>i\<close> for every later instance.
\<close>

theorem indexUsageFromSpec_replicas:
  assumes "unat (Replica spec) < 2 ^ 63" and "unat (Replica spec) \<le> maxlen"
  shows "\<exists>usages.
     indexUsageFromSpec maxlen sizing (Some uuid) spec = Ok usages \<and>
     length usages = unat (Replica spec) \<and>
     (\<forall>i < unat (Replica spec). \<exists>index.
        usages ! i = Some (sizing index) \<and>
        IndexUsage.DefnId index = uuid \<and>
        IndexUsage.InstId index = of_nat i \<and>
        IndexUsage.Name index =
          (if i = 0 then IndexSpec.Name spec else IndexSpec.Name spec @ ''_'' @ decimal i))"
proof -
  let ?n = "unat (Replica spec)"
  let ?usages = "indexUsageFromSpec_loop sizing uuid spec 0 (replicate ?n None)"
  from assms have c: "\<not> (2 ^ 63 \<le> ?n \<or> maxlen < ?n)"
    by (simp only: not_le not_less de_Morgan_disj simp_thms)
  have ok: "indexUsageFromSpec maxlen sizing (Some uuid) spec = Ok ?usages"
    unfolding indexUsageFromSpec_def by (simp only: c if_False option.case)
  have len: "length ?usages = ?n"
    by (simp only: length_loop length_replicate)
  have s: "sint (Replica spec) = int ?n" using assms(1) by (rule sint_small)
  have nth: "?usages ! i = Some (sizing (replica_usage uuid spec i))" if "i < ?n" for i
  proof -
    from that have "int i < sint (Replica spec)" unfolding s by (simp only: of_nat_less_iff)
    moreover from that have "i < length (replicate ?n (None :: IndexUsage option))"
      by (simp only: length_replicate)
    ultimately show ?thesis by (simp only: nth_loop le0 simp_thms if_True)
  qed
  have flds: "IndexUsage.DefnId (replica_usage uuid spec i) = uuid \<and>
        IndexUsage.InstId (replica_usage uuid spec i) = of_nat i \<and>
        IndexUsage.Name (replica_usage uuid spec i) =
          (if i = 0 then IndexSpec.Name spec else IndexSpec.Name spec @ ''_'' @ decimal i)" for i
    by (simp add: replica_usage_def Let_def)
  show ?thesis
  proof (intro exI [of _ ?usages] conjI allI impI)
    show "indexUsageFromSpec maxlen sizing (Some uuid) spec = Ok ?usages" by (rule ok)
    show "length ?usages = ?n" by (rule len)
    fix i assume "i < ?n"
    from nth [OF this] flds [of i]
    show "\<exists>index. ?usages ! i = Some (sizing index) \<and>
        IndexUsage.DefnId index = uuid \<and>
        IndexUsage.InstId index = of_nat i \<and>
        IndexUsage.Name index =
          (if i = 0 then IndexSpec.Name spec else IndexSpec.Name spec @ ''_'' @ decimal i)"
      by blast
  qed
qed

theorem indexUsageFromSpec_replicas_witness:
  "\<exists>a b c. indexUsageFromSpec 100 id (Some 77) spec3 = Ok [Some a, Some b, Some c] \<and>
     map IndexUsage.Name [a, b, c] = [''idx'', ''idx_1'', ''idx_2''] \<and>
     map IndexUsage.InstId [a, b, c] = [0, 1, 2] \<and>
     map IndexUsage.DefnId [a, b, c] = [77, 77, 77]"
proof -
  have r: "unat (Replica spec3) = 3" and name: "IndexSpec.Name spec3 = ''idx''"
    by (simp_all add: spec3_def)
  have h: "unat (Replica spec3) < 2 ^ 63" "unat (Replica spec3) \<le> 100"
    unfolding r by simp_all
  from indexUsageFromSpec_replicas [OF h, of id 77, unfolded r name]
  obtain usages where
    u: "indexUsageFromSpec 100 id (Some 77) spec3 = Ok usages" and len: "length usages = 3"
    and n: "\<forall>i<3. \<exists>index. usages ! i = Some (id index) \<and>
        IndexUsage.DefnId index = 77 \<and> IndexUsage.InstId index = of_nat i \<and>
        IndexUsage.Name index = (if i = 0 then ''idx'' else ''idx'' @ ''_'' @ decimal i)"
    by blast
  from len obtain x y z where l: "usages = [x, y, z]"
    by (auto simp: length_Suc_conv eval_nat_numeral)
  have d: "decimal 1 = ''1''" "decimal 2 = ''2''"
    by (simp_all add: decimal_digit)
  from n [rule_format, of 0] obtain a where "usages ! 0 = Some a" "IndexUsage.DefnId a = 77"
    "IndexUsage.InstId a = 0" "IndexUsage.Name a = ''idx''" by auto
  then have a: "x = Some a" "IndexUsage.DefnId a = 77"
    "IndexUsage.InstId a = 0" "IndexUsage.Name a = ''idx''" unfolding l by simp_all
  from n [rule_format, of 1] obtain b where "usages ! 1 = Some b" "IndexUsage.DefnId b = 77"
    "IndexUsage.InstId b = 1" "IndexUsage.Name b = ''idx_1''" unfolding d by auto
  then have b: "y = Some b" "IndexUsage.DefnId b = 77"
    "IndexUsage.InstId b = 1" "IndexUsage.Name b = ''idx_1''" unfolding l by simp_all
  from n [rule_format, of 2] obtain c where "usages ! 2 = Some c" "IndexUsage.DefnId c = 77"
    "IndexUsage.InstId c = 2" "IndexUsage.Name c = ''idx_2''" unfolding d by auto
  then have c: "z = Some c" "IndexUsage.DefnId c = 77"
    "IndexUsage.InstId c = 2" "IndexUsage.Name c = ''idx_2''" unfolding l by simp_all
  from u l a b c show ?thesis by simp
qed


section \<open>Properties of saved plans\<close>

subsection \<open>Reading back what was written\<close>

lemma lookup_member_obj:
  assumes dist: "distinct (map fst ms)" and mem: "(k, v, om) \<in> set ms"
  shows "lookup_member (obj_members ms) k = (if om then None else Some v)"
proof -
  have sub: "(k', v') \<in> set (obj_members ms) \<longleftrightarrow> (k', v', False) \<in> set ms" for k' v'
    by (force simp: obj_members_def)
  have d: "distinct (map fst (rev (obj_members ms)))"
    using dist unfolding obj_members_def
    by (simp add: rev_map [symmetric] distinct_map_filter comp_def case_prod_beta)
  show ?thesis
  proof (cases om)
    case False
    with mem have "(k, v) \<in> set (rev (obj_members ms))" by (simp add: sub)
    with d have "map_of (rev (obj_members ms)) k = Some v" by simp
    with False show ?thesis by (simp add: lookup_member_def)
  next
    case True
    have "k \<notin> fst ` set (rev (obj_members ms))"
    proof
      assume "k \<in> fst ` set (rev (obj_members ms))"
      then obtain v' where "(k, v') \<in> set (obj_members ms)" by auto
      then have "(k, v', False) \<in> set ms" by (simp add: sub)
      with dist mem have "(v, om) = (v', False)" by (rule eq_key_imp_eq_value)
      with True show False by simp
    qed
    then have "map_of (rev (obj_members ms)) k = None" by (simp add: map_of_eq_None_iff)
    with True show ?thesis by (simp add: lookup_member_def)
  qed
qed

lemma read_field_obj:
  assumes "distinct (map fst ms)" and "(k, v, om) \<in> set ms" and "dec v = Some x"
    and "om \<Longrightarrow> x = zero"
  shows "read_field (obj_members ms) k dec zero = Some x"
  using assms(3,4) by (auto simp: read_field_def lookup_member_obj [OF assms(1,2)])

lemma dec_enc_uint64: "dec_uint64 (enc_uint64 w) = Some w"
proof -
  have "unat w < 2 ^ 64" using unsigned_less [of w] by simp
  then show ?thesis by (simp add: dec_uint64_def enc_uint64_def)
qed

lemma dec_enc_string: "dec_string (enc_string coerce s) = Some (coerce s)"
  by (simp add: dec_string_def enc_string_def)

lemma dec_bool_JBool: "dec_bool (JBool b) = Some b"
  by (simp add: dec_bool_def)

lemma those_map_Some:
  "(\<And>x. x \<in> set xs \<Longrightarrow> dec (enc x) = Some (f x)) \<Longrightarrow>
   those (map dec (map enc xs)) = Some (map f xs)"
  by (induction xs) (simp_all add: comp_def)

lemma dec_list_JArr:
  "(\<And>x. x \<in> set xs \<Longrightarrow> dec (enc x) = Some (f x)) \<Longrightarrow>
   dec_list dec (JArr (map enc xs)) = Some (map f xs)"
  unfolding dec_list_def json.case by (rule those_map_Some)

lemma dec_list_JNull: "dec_list dec JNull = Some []"
  by (simp add: dec_list_def)

lemma dec_enc_strings: "dec_list dec_string (enc_strings coerce xs) = Some (map coerce xs)"
  by (simp add: enc_strings_def dec_list_JNull dec_list_JArr dec_enc_string)

lemmas dec_enc = dec_enc_uint64 dec_enc_string dec_bool_JBool dec_enc_strings

lemma dec_enc_IndexDefn:
  assumes c0: "coerce [] = []"
  shows "dec_IndexDefn (enc_IndexDefn coerce d) = Some (written_IndexDefn coerce d)"
proof -
  have dist: "distinct (map fst (IndexDefn_members coerce d))"
    by (simp add: IndexDefn_members_def)
  have f1: "read_field (obj_members (IndexDefn_members coerce d)) ''defnId'' dec_uint64 0 = Some (IndexDefn.DefnId d)"
    by (rule read_field_obj [OF dist, where v = "enc_uint64 (IndexDefn.DefnId d)" and om = "IndexDefn.DefnId d = 0"])
      (simp_all add: IndexDefn_members_def dec_enc c0)
  have f2: "read_field (obj_members (IndexDefn_members coerce d)) ''name'' dec_string [] = Some (coerce (IndexDefn.Name d))"
    by (rule read_field_obj [OF dist, where v = "enc_string coerce (IndexDefn.Name d)" and om = "IndexDefn.Name d = []"])
      (simp_all add: IndexDefn_members_def dec_enc c0)
  have f3: "read_field (obj_members (IndexDefn_members coerce d)) ''using'' dec_string [] = Some (coerce (Using d))"
    by (rule read_field_obj [OF dist, where v = "enc_string coerce (Using d)" and om = "Using d = []"])
      (simp_all add: IndexDefn_members_def dec_enc c0)
  have f4: "read_field (obj_members (IndexDefn_members coerce d)) ''bucket'' dec_string [] = Some (coerce (IndexDefn.Bucket d))"
    by (rule read_field_obj [OF dist, where v = "enc_string coerce (IndexDefn.Bucket d)" and om = "IndexDefn.Bucket d = []"])
      (simp_all add: IndexDefn_members_def dec_enc c0)
  have f5: "read_field (obj_members (IndexDefn_members coerce d)) ''bucketUUID'' dec_string [] = Some (coerce (BucketUUID d))"
    by (rule read_field_obj [OF dist, where v = "enc_string coerce (BucketUUID d)" and om = "BucketUUID d = []"])
      (simp_all add: IndexDefn_members_def dec_enc c0)
  have f6: "read_field (obj_members (IndexDefn_members coerce d)) ''isPrimary'' dec_bool False = Some (IndexDefn.IsPrimary d)"
    by (rule read_field_obj [OF dist, where v = "JBool (IndexDefn.IsPrimary d)" and om = "IndexDefn.IsPrimary d = False"])
      (simp_all add: IndexDefn_members_def dec_enc c0)
  have f7: "read_field (obj_members (IndexDefn_members coerce d)) ''secExprs'' (dec_list dec_string) [] = Some (map coerce (IndexDefn.SecExprs d))"
    by (rule read_field_obj [OF dist, where v = "enc_strings coerce (IndexDefn.SecExprs d)" and om = "IndexDefn.SecExprs d = []"])
      (simp_all add: IndexDefn_members_def dec_enc c0)
  have f8: "read_field (obj_members (IndexDefn_members coerce d)) ''exprType'' dec_string [] = Some (coerce (ExprType d))"
    by (rule read_field_obj [OF dist, where v = "enc_string coerce (ExprType d)" and om = "ExprType d = []"])
      (simp_all add: IndexDefn_members_def dec_enc c0)
  have f9: "read_field (obj_members (IndexDefn_members coerce d)) ''partitionScheme'' dec_string [] = Some (coerce (PartitionScheme d))"
    by (rule read_field_obj [OF dist, where v = "enc_string coerce (PartitionScheme d)" and om = "PartitionScheme d = []"])
      (simp_all add: IndexDefn_members_def dec_enc c0)
  have f10: "read_field (obj_members (IndexDefn_members coerce d)) ''partitionKey'' dec_string [] = Some (coerce (PartitionKey d))"
    by (rule read_field_obj [OF dist, where v = "enc_string coerce (PartitionKey d)" and om = "PartitionKey d = []"])
      (simp_all add: IndexDefn_members_def dec_enc c0)
  have f11: "read_field (obj_members (IndexDefn_members coerce d)) ''where'' dec_string [] = Some (coerce (IndexDefn.WhereExpr d))"
    by (rule read_field_obj [OF dist, where v = "enc_string coerce (IndexDefn.WhereExpr d)" and om = "IndexDefn.WhereExpr d = []"])
      (simp_all add: IndexDefn_members_def dec_enc c0)
  have f12: "read_field (obj_members (IndexDefn_members coerce d)) ''deferred'' dec_bool False = Some (IndexDefn.Deferred d)"
    by (rule read_field_obj [OF dist, where v = "JBool (IndexDefn.Deferred d)" and om = "IndexDefn.Deferred d = False"])
      (simp_all add: IndexDefn_members_def dec_enc c0)
  have f13: "read_field (obj_members (IndexDefn_members coerce d)) ''immutable'' dec_bool False = Some (IndexDefn.Immutable d)"
    by (rule read_field_obj [OF dist, where v = "JBool (IndexDefn.Immutable d)" and om = "IndexDefn.Immutable d = False"])
      (simp_all add: IndexDefn_members_def dec_enc c0)
  have f14: "read_field (obj_members (IndexDefn_members coerce d)) ''nodes'' (dec_list dec_string) [] = Some (map coerce (Nodes d))"
    by (rule read_field_obj [OF dist, where v = "enc_strings coerce (Nodes d)" and om = "Nodes d = []"])
      (simp_all add: IndexDefn_members_def dec_enc c0)
  have f15: "read_field (obj_members (IndexDefn_members coerce d)) ''isArrayIndex'' dec_bool False = Some (IndexDefn.IsArrayIndex d)"
    by (rule read_field_obj [OF dist, where v = "JBool (IndexDefn.IsArrayIndex d)" and om = "IndexDefn.IsArrayIndex d = False"])
      (simp_all add: IndexDefn_members_def dec_enc c0)
  show ?thesis
    unfolding dec_IndexDefn_def enc_IndexDefn_def json.case dec_IndexDefn_members_def
    by (simp only: f1 f2 f3 f4 f5 f6 f7 f8 f9 f10 f11 f12 f13 f14 f15 Option.bind.simps)
      (simp add: written_IndexDefn_def)
qed

lemma dec_pointer_IndexDefn:
  assumes c0: "coerce [] = []"
  shows "dec_pointer dec_IndexDefn
           (case x of None \<Rightarrow> JNull | Some d \<Rightarrow> enc_IndexDefn coerce d) =
         Some (map_option (written_IndexDefn coerce) x)"
proof (cases x)
  case None
  then show ?thesis by (simp add: dec_pointer_def)
next
  case (Some d)
  have "dec_pointer dec_IndexDefn (enc_IndexDefn coerce d) =
        map_option Some (dec_IndexDefn (enc_IndexDefn coerce d))"
    by (simp add: dec_pointer_def enc_IndexDefn_def)
  with Some show ?thesis by (simp add: dec_enc_IndexDefn [where coerce = coerce, OF c0])
qed

lemma dec_enc_IndexUsage:
  assumes c0: "coerce [] = []"
  shows "dec_IndexUsage (enc_IndexUsage coerce u) = Some (written_IndexUsage coerce u)"
proof -
  note dec_enc = dec_enc dec_pointer_IndexDefn [where coerce = coerce, OF c0]
  have dist: "distinct (map fst (IndexUsage_members coerce u))"
    by (simp add: IndexUsage_members_def)
  have f1: "read_field (obj_members (IndexUsage_members coerce u)) ''DefnId'' dec_uint64 0 = Some (IndexUsage.DefnId u)"
    by (rule read_field_obj [OF dist, where v = "enc_uint64 (IndexUsage.DefnId u)" and om = "False"])
      (simp_all add: IndexUsage_members_def dec_enc c0)
  have f2: "read_field (obj_members (IndexUsage_members coerce u)) ''InstId'' dec_uint64 0 = Some (IndexUsage.InstId u)"
    by (rule read_field_obj [OF dist, where v = "enc_uint64 (IndexUsage.InstId u)" and om = "False"])
      (simp_all add: IndexUsage_members_def dec_enc c0)
  have f3: "read_field (obj_members (IndexUsage_members coerce u)) ''Name'' dec_string [] = Some (coerce (IndexUsage.Name u))"
    by (rule read_field_obj [OF dist, where v = "enc_string coerce (IndexUsage.Name u)" and om = "False"])
      (simp_all add: IndexUsage_members_def dec_enc c0)
  have f4: "read_field (obj_members (IndexUsage_members coerce u)) ''Bucket'' dec_string [] = Some (coerce (IndexUsage.Bucket u))"
    by (rule read_field_obj [OF dist, where v = "enc_string coerce (IndexUsage.Bucket u)" and om = "False"])
      (simp_all add: IndexUsage_members_def dec_enc c0)
  have f5: "read_field (obj_members (IndexUsage_members coerce u)) ''Hosts'' (dec_list dec_string) [] = Some (map coerce (Hosts u))"
    by (rule read_field_obj [OF dist, where v = "enc_strings coerce (Hosts u)" and om = "False"])
      (simp_all add: IndexUsage_members_def dec_enc c0)
  have f6: "read_field (obj_members (IndexUsage_members coerce u)) ''IsPrimary'' dec_bool False = Some (IndexUsage.IsPrimary u)"
    by (rule read_field_obj [OF dist, where v = "JBool (IndexUsage.IsPrimary u)" and om = "False"])
      (simp_all add: IndexUsage_members_def dec_enc c0)
  have f7: "read_field (obj_members (IndexUsage_members coerce u)) ''IsMOI'' dec_bool False = Some (IsMOI u)"
    by (rule read_field_obj [OF dist, where v = "JBool (IsMOI u)" and om = "False"])
      (simp_all add: IndexUsage_members_def dec_enc c0)
  have f8: "read_field (obj_members (IndexUsage_members coerce u)) ''NumOfDocs'' dec_uint64 0 = Some (NumOfDocs u)"
    by (rule read_field_obj [OF dist, where v = "enc_uint64 (NumOfDocs u)" and om = "False"])
      (simp_all add: IndexUsage_members_def dec_enc c0)
  have f9: "read_field (obj_members (IndexUsage_members coerce u)) ''AvgDocKeySize'' dec_uint64 0 = Some (AvgDocKeySize u)"
    by (rule read_field_obj [OF dist, where v = "enc_uint64 (AvgDocKeySize u)" and om = "False"])
      (simp_all add: IndexUsage_members_def dec_enc c0)
  have f10: "read_field (obj_members (IndexUsage_members coerce u)) ''AvgSecKeySize'' dec_uint64 0 = Some (AvgSecKeySize u)"
    by (rule read_field_obj [OF dist, where v = "enc_uint64 (AvgSecKeySize u)" and om = "False"])
      (simp_all add: IndexUsage_members_def dec_enc c0)
  have f11: "read_field (obj_members (IndexUsage_members coerce u)) ''AvgArrKeySize'' dec_uint64 0 = Some (AvgArrKeySize u)"
    by (rule read_field_obj [OF dist, where v = "enc_uint64 (AvgArrKeySize u)" and om = "False"])
      (simp_all add: IndexUsage_members_def dec_enc c0)
  have f12: "read_field (obj_members (IndexUsage_members coerce u)) ''AvgArrSize'' dec_uint64 0 = Some (AvgArrSize u)"
    by (rule read_field_obj [OF dist, where v = "enc_uint64 (AvgArrSize u)" and om = "False"])
      (simp_all add: IndexUsage_members_def dec_enc c0)
  have f13: "read_field (obj_members (IndexUsage_members coerce u)) ''MutationRate'' dec_uint64 0 = Some (IndexUsage.MutationRate u)"
    by (rule read_field_obj [OF dist, where v = "enc_uint64 (IndexUsage.MutationRate u)" and om = "False"])
      (simp_all add: IndexUsage_members_def dec_enc c0)
  have f14: "read_field (obj_members (IndexUsage_members coerce u)) ''ScanRate'' dec_uint64 0 = Some (IndexUsage.ScanRate u)"
    by (rule read_field_obj [OF dist, where v = "enc_uint64 (IndexUsage.ScanRate u)" and om = "False"])
      (simp_all add: IndexUsage_members_def dec_enc c0)
  have f15: "read_field (obj_members (IndexUsage_members coerce u)) ''ActualMemUsage'' dec_uint64 0 = Some (IndexUsage.ActualMemUsage u)"
    by (rule read_field_obj [OF dist, where v = "enc_uint64 (IndexUsage.ActualMemUsage u)" and om = "False"])
      (simp_all add: IndexUsage_members_def dec_enc c0)
  have f16: "read_field (obj_members (IndexUsage_members coerce u)) ''ActualMemOverhead'' dec_uint64 0 = Some (IndexUsage.ActualMemOverhead u)"
    by (rule read_field_obj [OF dist, where v = "enc_uint64 (IndexUsage.ActualMemOverhead u)" and om = "False"])
      (simp_all add: IndexUsage_members_def dec_enc c0)
  have f17: "read_field (obj_members (IndexUsage_members coerce u)) ''ActualKeySize'' dec_uint64 0 = Some (ActualKeySize u)"
    by (rule read_field_obj [OF dist, where v = "enc_uint64 (ActualKeySize u)" and om = "False"])
      (simp_all add: IndexUsage_members_def dec_enc c0)
  have f18: "read_field (obj_members (IndexUsage_members coerce u)) ''Definition'' (dec_pointer dec_IndexDefn) None = Some (map_option (written_IndexDefn coerce) (Definition u))"
    by (rule read_field_obj [OF dist, where v = "(case Definition u of None \<Rightarrow> JNull | Some d \<Rightarrow> enc_IndexDefn coerce d)" and om = "False"])
      (simp_all add: IndexUsage_members_def dec_enc c0)
  show ?thesis
    unfolding dec_IndexUsage_def enc_IndexUsage_def json.case dec_IndexUsage_members_def
    by (simp only: f1 f2 f3 f4 f5 f6 f7 f8 f9 f10 f11 f12 f13 f14 f15 f16 f17 f18 Option.bind.simps)
      (simp add: written_IndexUsage_def)
qed

lemma dec_list_IndexUsage:
  assumes c0: "coerce [] = []"
  shows "dec_list dec_IndexUsage
           (if xs = [] then JNull else JArr (map (enc_IndexUsage coerce) xs)) =
         Some (map (written_IndexUsage coerce) xs)"
  by (simp add: dec_list_JNull dec_list_JArr dec_enc_IndexUsage [where coerce = coerce, OF c0])

lemma dec_enc_IndexerNode:
  assumes c0: "coerce [] = []"
  shows "dec_IndexerNode (enc_IndexerNode coerce n) = Some (written_IndexerNode coerce n)"
proof -
  note dec_enc = dec_enc dec_list_IndexUsage [where coerce = coerce, OF c0]
  have dist: "distinct (map fst (IndexerNode_members coerce n))"
    by (simp add: IndexerNode_members_def)
  have f1: "read_field (obj_members (IndexerNode_members coerce n)) ''NodeId'' dec_string [] = Some (coerce (NodeId n))"
    by (rule read_field_obj [OF dist, where v = "enc_string coerce (NodeId n)" and om = "False"])
      (simp_all add: IndexerNode_members_def dec_enc c0)
  have f2: "read_field (obj_members (IndexerNode_members coerce n)) ''NodeUUID'' dec_string [] = Some (coerce (NodeUUID n))"
    by (rule read_field_obj [OF dist, where v = "enc_string coerce (NodeUUID n)" and om = "False"])
      (simp_all add: IndexerNode_members_def dec_enc c0)
  have f3: "read_field (obj_members (IndexerNode_members coerce n)) ''ActualMemUsage'' dec_uint64 0 = Some (IndexerNode.ActualMemUsage n)"
    by (rule read_field_obj [OF dist, where v = "enc_uint64 (IndexerNode.ActualMemUsage n)" and om = "False"])
      (simp_all add: IndexerNode_members_def dec_enc c0)
  have f4: "read_field (obj_members (IndexerNode_members coerce n)) ''ActualMemOverhead'' dec_uint64 0 = Some (IndexerNode.ActualMemOverhead n)"
    by (rule read_field_obj [OF dist, where v = "enc_uint64 (IndexerNode.ActualMemOverhead n)" and om = "False"])
      (simp_all add: IndexerNode_members_def dec_enc c0)
  have f5: "read_field (obj_members (IndexerNode_members coerce n)) ''Indexes'' (dec_list dec_IndexUsage) [] = Some (map (written_IndexUsage coerce) (Indexes n))"
    by (rule read_field_obj [OF dist, where v = "(if Indexes n = [] then JNull else JArr (map (enc_IndexUsage coerce) (Indexes n)))" and om = "False"])
      (simp_all add: IndexerNode_members_def dec_enc c0)
  show ?thesis
    unfolding dec_IndexerNode_def enc_IndexerNode_def json.case dec_IndexerNode_members_def
    by (simp only: f1 f2 f3 f4 f5 Option.bind.simps)
      (simp add: written_IndexerNode_def)
qed

lemma dec_list_IndexerNode:
  assumes c0: "coerce [] = []"
  shows "dec_list dec_IndexerNode (JArr (map (enc_IndexerNode coerce) xs)) =
         Some (map (written_IndexerNode coerce) xs)"
  by (simp add: dec_list_JArr dec_enc_IndexerNode [where coerce = coerce, OF c0])

lemma dec_enc_Plan:
  assumes c0: "coerce [] = []"
  shows "dec_Plan (enc_Plan coerce p) = Some (written_Plan coerce p)"
proof -
  note dec_enc = dec_enc dec_list_IndexerNode [where coerce = coerce, OF c0]
  have dist: "distinct (map fst (Plan_members coerce p))"
    by (simp add: Plan_members_def)
  have f1: "read_field (obj_members (Plan_members coerce p)) ''placement'' (dec_list dec_IndexerNode) [] = Some (map (written_IndexerNode coerce) (Plan.Placement p))"
    by (rule read_field_obj [OF dist, where v = "JArr (map (enc_IndexerNode coerce) (Plan.Placement p))" and om = "Plan.Placement p = []"])
      (simp_all add: Plan_members_def dec_enc c0)
  have f2: "read_field (obj_members (Plan_members coerce p)) ''memQuota'' dec_uint64 0 = Some (MemQuota p)"
    by (rule read_field_obj [OF dist, where v = "enc_uint64 (MemQuota p)" and om = "MemQuota p = 0"])
      (simp_all add: Plan_members_def dec_enc c0)
  have f3: "read_field (obj_members (Plan_members coerce p)) ''cpuQuota'' dec_uint64 0 = Some (CpuQuota p)"
    by (rule read_field_obj [OF dist, where v = "enc_uint64 (CpuQuota p)" and om = "CpuQuota p = 0"])
      (simp_all add: Plan_members_def dec_enc c0)
  have f4: "read_field (obj_members (Plan_members coerce p)) ''isLive'' dec_bool False = Some (IsLive p)"
    by (rule read_field_obj [OF dist, where v = "JBool (IsLive p)" and om = "IsLive p = False"])
      (simp_all add: Plan_members_def dec_enc c0)
  show ?thesis
    unfolding dec_Plan_def enc_Plan_def json.case dec_Plan_members_def
    by (simp only: f1 f2 f3 f4 Option.bind.simps)
      (simp add: written_Plan_def)
qed


lemma ReadPlan_savePlan:
  assumes c0: "coerce [] = []" and out: "path \<noteq> []" and w: "writable fs path"
  shows "ReadPlan path (snd (savePlan coerce path solution memQuota cpuQuota fs)) =
           Inr (Some (written_Plan coerce
             \<lparr> Plan.Placement = Solution.Placement solution, MemQuota = memQuota,
               CpuQuota = cpuQuota, IsLive = isLiveData solution \<rparr>))"
  using out w
  by (simp add: savePlan_def ReadPlan_def Let_def dec_enc_Plan [where coerce = coerce, OF c0])

lemma written_plan0:
  "written_Plan (\<lambda>s. s) plan0 =
     plan0\<lparr>Plan.Placement :=
       [node1\<lparr>delete := False\<rparr>,
        node2\<lparr>Indexes := [(usage_on 1 \<lparr>ref_NodeId = ''n1'', ref_NodeUUID = ''uuid-n1''\<rparr>)
                               \<lparr>initialNode := None\<rparr>,
                            (usage_on 2 \<lparr>ref_NodeId = ''n2'', ref_NodeUUID = ''uuid-n2''\<rparr>)
                               \<lparr>initialNode := None\<rparr>]\<rparr>]\<rparr>"
  by (simp add: written_Plan_def plan0_def solution0_def written_IndexerNode_def node1_def
      node2_def written_IndexUsage_def usage_on_def IndexUsage_zero_def written_IndexDefn_def
      defn_two_exprs_def)

text \<open>
  Claim C8, as stated, fails. The plan of \<open>solution0\<close> has a node marked for
  deletion and two indexes that know their initial node. Saving it succeeds, and
  the plan that is read back has no node marked for deletion and no initial
  node: the fields \<^verbatim>\<open>delete\<close> and \<^verbatim>\<open>initialNode\<close> are not exported, so
  \<^verbatim>\<open>encoding/json\<close> does not write them.
\<close>

theorem ReadPlan_savePlan_loses_unexported_fields:
  "fst (savePlan (\<lambda>s. s) ''plan.json'' solution0 1024 4 files0) = None \<and>
   ReadPlan ''plan.json'' (snd (savePlan (\<lambda>s. s) ''plan.json'' solution0 1024 4 files0)) \<noteq>
     Inr (Some plan0) \<and>
   map delete (Plan.Placement plan0) = [True, False] \<and>
   (\<exists>p. ReadPlan ''plan.json''
          (snd (savePlan (\<lambda>s. s) ''plan.json'' solution0 1024 4 files0)) = Inr (Some p) \<and>
        map delete (Plan.Placement p) = [False, False] \<and>
        map (map initialNode \<circ> Indexes) (Plan.Placement p) = [[], [None, None]])"
proof -
  have w: "writable files0 ''plan.json''" and o: "''plan.json'' \<noteq> []"
    by (simp_all add: files0_def)
  have r: "ReadPlan ''plan.json'' (snd (savePlan (\<lambda>s. s) ''plan.json'' solution0 1024 4 files0)) =
           Inr (Some (written_Plan (\<lambda>s. s) plan0))"
    using ReadPlan_savePlan [where coerce = "\<lambda>s. s" and path = "''plan.json''"
        and fs = files0 and solution = solution0 and memQuota = "1024" and cpuQuota = "4"] o w
    by (simp add: plan0_def solution0_def)
  have s: "fst (savePlan (\<lambda>s. s) ''plan.json'' solution0 1024 4 files0) = None"
    using w by (simp add: savePlan_def Let_def)
  have d0: "map delete (Plan.Placement plan0) = [True, False]"
    by (simp add: plan0_def solution0_def node1_def node2_def)
  have d1: "map delete (Plan.Placement (written_Plan (\<lambda>s. s) plan0)) = [False, False]"
    unfolding written_plan0 by (simp add: node2_def)
  have i1: "map (map initialNode \<circ> Indexes) (Plan.Placement (written_Plan (\<lambda>s. s) plan0)) =
              [[], [None, None]]"
    unfolding written_plan0 by (simp add: node1_def)
  have ne: "written_Plan (\<lambda>s. s) plan0 \<noteq> plan0"
  proof
    assume "written_Plan (\<lambda>s. s) plan0 = plan0"
    with d1 d0 show False by simp
  qed
  from s r d0 d1 i1 ne show ?thesis by simp
qed

text \<open>
  Claim C8, amended. Saving a plan with \<open>savePlan\<close> to a path that can be written
  and reading that file with \<open>ReadPlan\<close> yields the plan as it is written: the
  memory quota, the CPU quota and the live flag of the original, and a placement
  with the same nodes and indexes in the same order, equal to the original in
  every exported field (its strings as \<^verbatim>\<open>json.Marshal\<close> writes them); the fields
  that are not exported, the deletion mark of a node and the initial node of an
  index, come back with their zero values.
\<close>

theorem ReadPlan_savePlan_written:
  assumes "coerce [] = []" and "path \<noteq> []" and "writable fs path"
  shows "\<exists>fs' p.
     savePlan coerce path solution memQuota cpuQuota fs = (None, fs') \<and>
     ReadPlan path fs' = Inr (Some p) \<and>
     p = written_Plan coerce
           \<lparr> Plan.Placement = Solution.Placement solution, MemQuota = memQuota,
             CpuQuota = cpuQuota, IsLive = isLiveData solution \<rparr> \<and>
     MemQuota p = memQuota \<and> CpuQuota p = cpuQuota \<and> IsLive p = isLiveData solution \<and>
     Plan.Placement p = map (written_IndexerNode coerce) (Solution.Placement solution) \<and>
     (\<forall>n \<in> set (Plan.Placement p). delete n = False \<and>
        (\<forall>u \<in> set (Indexes n). initialNode u = None))"
proof -
  let ?plan = "\<lparr> Plan.Placement = Solution.Placement solution, MemQuota = memQuota,
                 CpuQuota = cpuQuota, IsLive = isLiveData solution \<rparr>"
  let ?fs = "snd (savePlan coerce path solution memQuota cpuQuota fs)"
  have s: "savePlan coerce path solution memQuota cpuQuota fs = (None, ?fs)"
    using assms(3) by (simp add: savePlan_def Let_def)
  have r: "ReadPlan path ?fs = Inr (Some (written_Plan coerce ?plan))"
    by (rule ReadPlan_savePlan [where coerce = coerce, OF assms])
  have q: "MemQuota (written_Plan coerce ?plan) = memQuota"
    "CpuQuota (written_Plan coerce ?plan) = cpuQuota"
    "IsLive (written_Plan coerce ?plan) = isLiveData solution"
    "Plan.Placement (written_Plan coerce ?plan) =
       map (written_IndexerNode coerce) (Solution.Placement solution)"
    by (simp_all add: written_Plan_def)
  have z: "\<forall>n \<in> set (Plan.Placement (written_Plan coerce ?plan)). delete n = False \<and>
        (\<forall>u \<in> set (Indexes n). initialNode u = None)"
    unfolding q by (auto simp: written_IndexerNode_def written_IndexUsage_def)
  from s r q z show ?thesis by blast
qed

theorem ReadPlan_savePlan_written_witness:
  "\<exists>fs'. savePlan (\<lambda>s. s) ''plan.json'' solution0 1024 4 files0 = (None, fs') \<and>
     ReadPlan ''plan.json'' fs' =
       Inr (Some (plan0\<lparr>Plan.Placement :=
         [node1\<lparr>delete := False\<rparr>,
          node2\<lparr>Indexes := [(usage_on 1 \<lparr>ref_NodeId = ''n1'', ref_NodeUUID = ''uuid-n1''\<rparr>)
                                 \<lparr>initialNode := None\<rparr>,
                              (usage_on 2 \<lparr>ref_NodeId = ''n2'', ref_NodeUUID = ''uuid-n2''\<rparr>)
                                 \<lparr>initialNode := None\<rparr>]\<rparr>]\<rparr>))"
proof -
  have h: "''plan.json'' \<noteq> []" "writable files0 ''plan.json''"
    by (simp_all add: files0_def)
  from ReadPlan_savePlan_written [where coerce = "\<lambda>s. s" and path = "''plan.json''"
      and fs = files0 and solution = solution0 and memQuota = "1024" and cpuQuota = "4"] h
  obtain fs' p where
    "savePlan (\<lambda>s. s) ''plan.json'' solution0 1024 4 files0 = (None, fs')"
    "ReadPlan ''plan.json'' fs' = Inr (Some p)"
    "p = written_Plan (\<lambda>s. s)
           \<lparr> Plan.Placement = Solution.Placement solution0, MemQuota = 1024,
             CpuQuota = 4, IsLive = isLiveData solution0 \<rparr>"
    by blast
  moreover have "\<lparr> Plan.Placement = Solution.Placement solution0, MemQuota = 1024,
             CpuQuota = 4, IsLive = isLiveData solution0 \<rparr> = plan0"
    by (simp add: plan0_def solution0_def)
  ultimately show ?thesis unfolding written_plan0 [symmetric] by auto
qed

end
